theory Spec2Isabelle
  imports Main "HOL-Library.Word"
begin

section \<open>JavaScript values used by the program\<close>

text \<open>
  A string is the list of the bytes of its UTF-8 form; the operations the program uses
  (splitting at an ASCII character, matching ASCII digits and literal text, taking the
  digits of a match) give the same result on it as on the UTF-16 string of the runtime.
  A value that may be \<open>undefined\<close> is an option. An exception is the left summand of
  a sum type.
\<close>

datatype jsError =
    TypeError           \<comment> \<open>a property read on \<open>undefined\<close>; the message text is engine specific\<close>
  | SyntaxError         \<comment> \<open>\<open>new RegExp\<close> on a pattern that is not a regular expression\<close>
  | Error string        \<comment> \<open>\<open>new Error(message)\<close>\<close>
  | ExternalError string  \<comment> \<open>an error raised by a collaborator (database, storage, file system)\<close>

text \<open>A number: an integer, \<open>NaN\<close> or an infinity. The sign of zero is not kept.\<close>

datatype jsNumber = NaN | Number int | PlusInfinity | MinusInfinity

text \<open>A \<open>Date\<close> object: its time value, or the invalid date, whose time value is \<open>NaN\<close>.\<close>

datatype jsDate = TimeValue int | InvalidDate

text \<open>
  What the program takes from the runtime it runs on.

  The time zone of the process is the function \<open>LocalTZA(t, isUTC)\<close> of ECMAScript: the
  offset of local time from UTC in milliseconds, at the UTC time value \<open>t\<close> when \<open>isUTC\<close>
  holds, and at the local time value \<open>t\<close> otherwise (a local time that a transition skips
  or repeats is read with the offset before the transition).

  The regular-expression engine and the \<open>Date\<close> parser are asked only for a database name
  that has regular-expression syntax characters: \<open>regExpDate dbName fileName\<close> is what
  lines 115 to 130 of \<open>deleteOldBackups\<close> then give for a file name: the exception thrown
  (\<open>new RegExp\<close> on a malformed pattern, \<open>substring\<close> on a group that did not take part),
  no match, or the date built from the groups. For every other name the embedding
  computes these lines itself (\<open>fileNameDate\<close> below).
\<close>

record jsRuntime =
  localTZA :: "int \<Rightarrow> bool \<Rightarrow> int"
  regExpDate :: "string \<Rightarrow> string \<Rightarrow> jsError + jsDate option"

text \<open>\<open>String.prototype.split\<close> with a one-character separator: never an empty array.\<close>

fun splitOn :: "char \<Rightarrow> string \<Rightarrow> string list" where
  "splitOn c [] = [[]]"
| "splitOn c (x # xs) =
     (if x = c then [] # splitOn c xs
      else (case splitOn c xs of
              [] \<Rightarrow> [[x]]
            | y # ys \<Rightarrow> (x # y) # ys))"

text \<open>Array indexing: \<open>a[i]\<close> is \<open>undefined\<close> past the end.\<close>

fun nthOpt :: "'a list \<Rightarrow> nat \<Rightarrow> 'a option" where
  "nthOpt [] i = None"
| "nthOpt (x # xs) 0 = Some x"
| "nthOpt (x # xs) (Suc i) = nthOpt xs i"

text \<open>Truthiness of a \<open>string | undefined\<close>: \<open>undefined\<close> and the empty string are falsy.\<close>

fun truthy :: "string option \<Rightarrow> bool" where
  "truthy None = False"
| "truthy (Some s) = (s \<noteq> [])"

definition isDigit :: "char \<Rightarrow> bool" where
  "isDigit c = (c \<in> set ''0123456789'')"

definition digitVal :: "char \<Rightarrow> nat" where
  "digitVal c = of_char c - 48"

text \<open>The value of a string of decimal digits.\<close>

definition readNat :: "string \<Rightarrow> nat" where
  "readNat s = foldl (\<lambda>a c. 10 * a + digitVal c) 0 s"

text \<open>
  The white space and line terminators of ECMAScript, as UTF-8: TAB, LF, VT, FF, CR and
  SP in one byte; U+00A0 in two; U+1680, U+2000 to U+200A, U+2028, U+2029, U+202F,
  U+205F, U+3000 and U+FEFF in three.
\<close>

definition isWhiteSpace :: "char \<Rightarrow> bool" where
  "isWhiteSpace c = (of_char c \<in> {9, 10, 11, 12, 13, 32 :: nat})"

definition isWhiteSpace2 :: "char \<Rightarrow> char \<Rightarrow> bool" where
  "isWhiteSpace2 a b = (of_char a = (194 :: nat) \<and> of_char b = (160 :: nat))"

definition isWhiteSpace3 :: "char \<Rightarrow> char \<Rightarrow> char \<Rightarrow> bool" where
  "isWhiteSpace3 a b c =
     (let x = of_char a :: nat; y = of_char b :: nat; z = of_char c :: nat
      in x = 225 \<and> y = 154 \<and> z = 128 \<or>
         x = 226 \<and> y = 128 \<and> (128 \<le> z \<and> z \<le> 138 \<or> z = 168 \<or> z = 169 \<or> z = 175) \<or>
         x = 226 \<and> y = 129 \<and> z = 159 \<or>
         x = 227 \<and> y = 128 \<and> z = 128 \<or>
         x = 239 \<and> y = 187 \<and> z = 191)"

fun dropWhiteSpace :: "string \<Rightarrow> string" where
  "dropWhiteSpace [] = []"
| "dropWhiteSpace [a] = (if isWhiteSpace a then [] else [a])"
| "dropWhiteSpace [a, b] =
     (if isWhiteSpace a then dropWhiteSpace [b]
      else if isWhiteSpace2 a b then [] else [a, b])"
| "dropWhiteSpace (a # b # c # r) =
     (if isWhiteSpace a then dropWhiteSpace (b # c # r)
      else if isWhiteSpace2 a b then dropWhiteSpace (c # r)
      else if isWhiteSpace3 a b c then dropWhiteSpace r
      else a # b # c # r)"

text \<open>
  The Number value of a natural number: the nearest double, ties to the even mantissa;
  \<open>None\<close> is a value so large that it rounds to infinity.
\<close>

function bitLength :: "int \<Rightarrow> nat" where
  "bitLength n = (if n \<le> 0 then 0 else Suc (bitLength (n div 2)))"
  by pat_completeness auto

termination
  by (relation "measure nat") auto

declare bitLength.simps [simp del]

definition roundUp :: "int \<Rightarrow> nat \<Rightarrow> int option" where
  "roundUp n e =
     (let q = n div 2 ^ e;
          r = n mod 2 ^ e;
          half = 2 ^ (e - 1);
          q' = (if half < r \<or> (r = half \<and> odd q) then q + 1 else q);
          m = q' * 2 ^ e
      in if bitLength m \<le> 1024 then Some m else None)"

definition roundToDouble :: "int \<Rightarrow> int option" where
  "roundToDouble n =
     (if bitLength n \<le> 53 then Some n else roundUp n (bitLength n - 53))"

text \<open>The value of a string of decimal digits, as an integer.\<close>

definition readInt :: "string \<Rightarrow> int" where
  "readInt s = foldl (\<lambda>a c. 10 * a + int (digitVal c)) 0 s"

text \<open>
  \<open>parseInt(s, 10)\<close>: leading white space is skipped, a sign is read, then the longest
  run of decimal digits, whose value is rounded to a double; no digit gives \<open>NaN\<close>.
  (Beyond 20 significant digits ECMAScript lets an implementation replace the later
  digits by zeros before rounding; the value here is the one of the digits as written.)
\<close>

definition parseInt10 :: "string \<Rightarrow> jsNumber" where
  "parseInt10 s =
     (let t = dropWhiteSpace s;
          (negative, r) = (case t of
                             [] \<Rightarrow> (False, t)
                           | c # cs \<Rightarrow> if c = CHR ''-'' then (True, cs)
                                      else if c = CHR ''+'' then (False, cs) else (False, t));
          ds = takeWhile isDigit r
      in if ds = [] then NaN
         else (case roundToDouble (readInt ds) of
                 None \<Rightarrow> if negative then MinusInfinity else PlusInfinity
               | Some m \<Rightarrow> Number (if negative then - m else m)))"

section \<open>DatabaseService.parseConnectionString\<close>

record ConnectionDetails =
  username :: string
  password :: "string option"
  host :: string
  port :: jsNumber
  database :: string

text \<open>\<open>connectionString.replace(/^postgres:\/\//, '')\<close>\<close>

definition removeScheme :: "string \<Rightarrow> string" where
  "removeScheme s = (if take 11 s = ''postgres://'' then drop 11 s else s)"

text \<open>
  The destructuring \<open>[userpass, hostdb] = conn.split('@')\<close> reads elements 0 and 1;
  \<open>hostdb\<close> is \<open>undefined\<close> when there is no \<open>@\<close>, and \<open>hostdb.split\<close> then throws a
  TypeError. Nothing else in the function throws. \<open>parseInt(undefined, 10)\<close> is
  \<open>NaN\<close>.
\<close>

definition parseConnectionString :: "string \<Rightarrow> jsError + ConnectionDetails" where
  "parseConnectionString connectionString =
     (let conn = removeScheme connectionString;
          parts = splitOn CHR ''@'' conn;
          userpass = (case nthOpt parts 0 of Some u \<Rightarrow> u | None \<Rightarrow> []);
          hostdb = nthOpt parts 1;
          up = splitOn CHR '':'' userpass;
          username = (case nthOpt up 0 of Some u \<Rightarrow> u | None \<Rightarrow> []);
          password = nthOpt up 1
      in case hostdb of
           None \<Rightarrow> Inl TypeError
         | Some hostdb \<Rightarrow>
             (let hostportPart = (case nthOpt (splitOn CHR ''/'' hostdb) 0 of
                                    Some h \<Rightarrow> h | None \<Rightarrow> []);
                  hp = splitOn CHR '':'' hostportPart;
                  host = (case nthOpt hp 0 of Some h \<Rightarrow> h | None \<Rightarrow> []);
                  portStr = nthOpt hp 1;
                  port = (case portStr of None \<Rightarrow> NaN | Some p \<Rightarrow> parseInt10 p);
                  database = (case nthOpt (splitOn CHR ''/'' hostdb) 1 of
                                None \<Rightarrow> ''postgres''
                              | Some d \<Rightarrow> (case nthOpt (splitOn CHR ''?'' d) 0 of
                                            Some x \<Rightarrow> x | None \<Rightarrow> []))
              in Inr \<lparr> username = username, password = password, host = host,
                       port = port, database = database \<rparr>))"

section \<open>ECMAScript time values\<close>

text \<open>
  A time value is a number of milliseconds since 1970-01-01T00:00:00Z, here an \<open>int\<close>.
  The definitions follow the abstract operations of the ECMAScript specification
  (Day, TimeWithinDay, DaysInYear, DayFromYear, YearFromTime, MonthFromTime, DateFromTime,
  HourFromTime, MinFromTime, SecFromTime, MakeTime, MakeDay, MakeDate), which the
  \<open>Date\<close> methods used by the program are defined by. TimeClip (the bound of
  \<open>8.64e15\<close> ms) is not modelled.
\<close>

definition msPerDay :: int where "msPerDay = 86400000"
definition msPerHour :: int where "msPerHour = 3600000"
definition msPerMinute :: int where "msPerMinute = 60000"
definition msPerSecond :: int where "msPerSecond = 1000"

definition day :: "int \<Rightarrow> int" where
  "day t = t div msPerDay"

definition timeWithinDay :: "int \<Rightarrow> int" where
  "timeWithinDay t = t mod msPerDay"

definition daysInYear :: "int \<Rightarrow> int" where
  "daysInYear y =
     (if y mod 4 \<noteq> 0 then 365
      else if y mod 100 \<noteq> 0 then 366
      else if y mod 400 \<noteq> 0 then 365 else 366)"

definition dayFromYear :: "int \<Rightarrow> int" where
  "dayFromYear y =
     365 * (y - 1970) + (y - 1969) div 4 - (y - 1901) div 100 + (y - 1601) div 400"

lemma div_step:
  fixes a k :: int
  assumes "0 < k"
  shows "(a + 1) div k = a div k + (if (a + 1) mod k = 0 then 1 else 0)"
proof -
  define q where "q = a div k"
  define r where "r = a mod k"
  have a: "a = k * q + r" by (simp add: q_def r_def)
  have r: "0 \<le> r" "r < k" using assms by (simp_all add: r_def)
  show ?thesis
  proof (cases "r + 1 < k")
    case True
    have e: "a + 1 = k * q + (r + 1)" using a by simp
    have "(a + 1) div k = q"
      using e r True by (intro int_div_pos_eq [where r = "r + 1"]) auto
    moreover have "(a + 1) mod k = r + 1"
      using e r True by (intro int_mod_pos_eq [where q = q]) auto
    ultimately show ?thesis using r by (simp add: q_def)
  next
    case False
    then have k: "r + 1 = k" using r by simp
    have e: "a + 1 = k * (q + 1) + 0" using a k by (simp add: algebra_simps)
    have "(a + 1) div k = q + 1"
      using e assms by (intro int_div_pos_eq [where r = 0]) auto
    moreover have "(a + 1) mod k = 0"
      using e assms by (intro int_mod_pos_eq [where q = "q + 1"]) auto
    ultimately show ?thesis by (simp add: q_def)
  qed
qed

lemma mod4_shift: "((y::int) - 1968) mod 4 = y mod 4" by algebra
lemma mod100_shift: "((y::int) - 1900) mod 100 = y mod 100" by algebra
lemma mod400_shift: "((y::int) - 1600) mod 400 = y mod 400" by algebra
lemma mod400_100: "(y::int) mod 400 = 0 \<Longrightarrow> y mod 100 = 0" by auto
lemma mod100_4: "(y::int) mod 100 = 0 \<Longrightarrow> y mod 4 = 0" by auto

text \<open>The closed form of DayFromYear advances by the length of the year.\<close>

lemma dayFromYear_Suc: "dayFromYear (y + 1) = dayFromYear y + daysInYear y"
proof -
  have a: "(y + 1 - 1969) div 4 = (y - 1969) div 4 + (if y mod 4 = 0 then 1 else 0)"
    using div_step [of 4 "y - 1969"] mod4_shift [of y] by (simp add: algebra_simps)
  have b: "(y + 1 - 1901) div 100 = (y - 1901) div 100 + (if y mod 100 = 0 then 1 else 0)"
    using div_step [of 100 "y - 1901"] mod100_shift [of y] by (simp add: algebra_simps)
  have c: "(y + 1 - 1601) div 400 = (y - 1601) div 400 + (if y mod 400 = 0 then 1 else 0)"
    using div_step [of 400 "y - 1601"] mod400_shift [of y] by (simp add: algebra_simps)
  show ?thesis
    unfolding dayFromYear_def daysInYear_def a b c
    using mod400_100 [of y] mod100_4 [of y] by auto
qed

lemma daysInYear_bounds: "365 \<le> daysInYear y" "daysInYear y \<le> 366"
  by (simp_all add: daysInYear_def)

lemma daysInYear_cases: "daysInYear y = 365 \<or> daysInYear y = 366"
  by (simp add: daysInYear_def)

lemma dayFromYear_less_Suc: "dayFromYear y < dayFromYear (y + 1)"
  using daysInYear_bounds(1) [of y] by (simp add: dayFromYear_Suc)

lemma dayFromYear_1970: "dayFromYear 1970 = 0"
  by (simp add: dayFromYear_def)

lemma dayFromYear_lower: "a \<le> b \<Longrightarrow> dayFromYear a + 365 * (b - a) \<le> dayFromYear b"
proof (induction b rule: int_ge_induct)
  case base
  show ?case by simp
next
  case (step i)
  have "365 * (i + 1 - a) = 365 * (i - a) + 365" by simp
  with step.IH show ?case
    using daysInYear_bounds(1) [of i] by (simp add: dayFromYear_Suc)
qed

lemma dayFromYear_upper: "a \<le> b \<Longrightarrow> dayFromYear b \<le> dayFromYear a + 366 * (b - a)"
proof (induction b rule: int_ge_induct)
  case base
  show ?case by simp
next
  case (step i)
  have "366 * (i + 1 - a) = 366 * (i - a) + 366" by simp
  with step.IH show ?case
    using daysInYear_bounds(2) [of i] by (simp add: dayFromYear_Suc)
qed

text \<open>
  YearFromTime is specified as the largest year whose first day is not after the time.
  The search below starts at a year that is not after it and walks up; \<open>yearFromDay_spec\<close>
  and \<open>yearFromDay_unique\<close> show that it computes the specified year.
\<close>

function yearSearch :: "int \<Rightarrow> int \<Rightarrow> int" where
  "yearSearch y d = (if dayFromYear (y + 1) \<le> d then yearSearch (y + 1) d else y)"
  by pat_completeness auto
termination
proof (relation "measure (\<lambda>(y, d). nat (d - dayFromYear y))")
  show "wf (measure (\<lambda>(y, d). nat (d - dayFromYear y)))" by simp
next
  fix y d :: int
  assume "dayFromYear (y + 1) \<le> d"
  then show "((y + 1, d), (y, d)) \<in> measure (\<lambda>(y, d). nat (d - dayFromYear y))"
    using dayFromYear_less_Suc [of y] by simp
qed

declare yearSearch.simps [simp del]

definition yearFromDay :: "int \<Rightarrow> int" where
  "yearFromDay d = yearSearch (1970 + (if 0 \<le> d then d div 366 else d div 365)) d"

definition yearFromTime :: "int \<Rightarrow> int" where
  "yearFromTime t = yearFromDay (day t)"

text \<open>InLeapYear, as the number of leap days of the year of \<open>t\<close>: 0 or 1.\<close>

definition inLeapYear :: "int \<Rightarrow> int" where
  "inLeapYear t = daysInYear (yearFromTime t) - 365"

definition dayWithinYear :: "int \<Rightarrow> int" where
  "dayWithinYear t = day t - dayFromYear (yearFromTime t)"

text \<open>The month table of MonthFromTime, on the day within the year and the leap days.\<close>

definition monthFromYearDay :: "int \<Rightarrow> int \<Rightarrow> int" where
  "monthFromYearDay l d =
     (if d < 31 then 0
      else if d < 59 + l then 1
      else if d < 90 + l then 2
      else if d < 120 + l then 3
      else if d < 151 + l then 4
      else if d < 181 + l then 5
      else if d < 212 + l then 6
      else if d < 243 + l then 7
      else if d < 273 + l then 8
      else if d < 304 + l then 9
      else if d < 334 + l then 10
      else 11)"

text \<open>The number of days of the year before month \<open>m\<close> (0 is January).\<close>

definition daysBeforeMonth :: "int \<Rightarrow> int \<Rightarrow> int" where
  "daysBeforeMonth l m =
     (if m = 0 then 0
      else if m = 1 then 31
      else if m = 2 then 59 + l
      else if m = 3 then 90 + l
      else if m = 4 then 120 + l
      else if m = 5 then 151 + l
      else if m = 6 then 181 + l
      else if m = 7 then 212 + l
      else if m = 8 then 243 + l
      else if m = 9 then 273 + l
      else if m = 10 then 304 + l
      else 334 + l)"

definition monthFromTime :: "int \<Rightarrow> int" where
  "monthFromTime t = monthFromYearDay (inLeapYear t) (dayWithinYear t)"

definition dateFromTime :: "int \<Rightarrow> int" where
  "dateFromTime t =
     dayWithinYear t - daysBeforeMonth (inLeapYear t) (monthFromTime t) + 1"

definition hourFromTime :: "int \<Rightarrow> int" where
  "hourFromTime t = (t div msPerHour) mod 24"

definition minFromTime :: "int \<Rightarrow> int" where
  "minFromTime t = (t div msPerMinute) mod 60"

definition secFromTime :: "int \<Rightarrow> int" where
  "secFromTime t = (t div msPerSecond) mod 60"

definition msFromTime :: "int \<Rightarrow> int" where
  "msFromTime t = t mod msPerSecond"

definition makeTime :: "int \<Rightarrow> int \<Rightarrow> int \<Rightarrow> int \<Rightarrow> int" where
  "makeTime hour minute sec ms =
     hour * msPerHour + minute * msPerMinute + sec * msPerSecond + ms"

definition makeDay :: "int \<Rightarrow> int \<Rightarrow> int \<Rightarrow> int" where
  "makeDay year month date =
     (let ym = year + month div 12;
          mn = month mod 12
      in dayFromYear ym + daysBeforeMonth (daysInYear ym - 365) mn + date - 1)"

definition makeDate :: "int \<Rightarrow> int \<Rightarrow> int" where
  "makeDate dy tm = dy * msPerDay + tm"

text \<open>\<open>LocalTime(t)\<close> and \<open>UTC(t)\<close>, in the time zone of the process.\<close>

definition localTime :: "jsRuntime \<Rightarrow> int \<Rightarrow> int" where
  "localTime rt t = t + localTZA rt t True"

definition utcTime :: "jsRuntime \<Rightarrow> int \<Rightarrow> int" where
  "utcTime rt t = t - localTZA rt t False"

section \<open>date-fns: format and subDays\<close>

definition digitChar :: "nat \<Rightarrow> char" where
  "digitChar n = ''0123456789'' ! (n mod 10)"

text \<open>\<open>Number.prototype.toString\<close> on a non-negative integer.\<close>

fun showNat :: "nat \<Rightarrow> string" where
  "showNat n = (if n < 10 then [digitChar n] else showNat (n div 10) @ [digitChar (n mod 10)])"

declare showNat.simps [simp del]

definition padStart :: "nat \<Rightarrow> char \<Rightarrow> string \<Rightarrow> string" where
  "padStart n c s = replicate (n - length s) c @ s"

text \<open>
  date-fns \<open>addLeadingZeros(number, targetLength)\<close>: the sign, then the absolute value
  padded with zeros to at least \<open>targetLength\<close> digits.
\<close>

definition addLeadingZeros :: "int \<Rightarrow> nat \<Rightarrow> string" where
  "addLeadingZeros number targetLength =
     (if number < 0 then ''-'' else []) @
     padStart targetLength CHR ''0'' (showNat (nat \<bar>number\<bar>))"

text \<open>
  \<open>format(date, 'yyyyMMdd_HHmmss')\<close>. date-fns reads the fields with the local-time
  getters of \<open>Date\<close> (getFullYear, getMonth, getDate, getHours, getMinutes, getSeconds),
  so the fields are those of the time zone of the process. The token \<open>yyyy\<close> prints
  \<open>1 - year\<close> for a year that is not positive.
\<close>

definition formatTimestamp :: "jsRuntime \<Rightarrow> int \<Rightarrow> string" where
  "formatTimestamp rt date =
     (let t = localTime rt date;
          year = yearFromTime t
      in addLeadingZeros (if 0 < year then year else 1 - year) 4 @
         addLeadingZeros (monthFromTime t + 1) 2 @
         addLeadingZeros (dateFromTime t) 2 @
         ''_'' @
         addLeadingZeros (hourFromTime t) 2 @
         addLeadingZeros (minFromTime t) 2 @
         addLeadingZeros (secFromTime t) 2)"

text \<open>
  \<open>subDays(date, amount)\<close> is \<open>addDays(date, -amount)\<close>, which returns the date as it
  is when the amount is zero and else calls \<open>date.setDate(date.getDate() + amount)\<close>:
  the day of the month of the local time is moved, the local time of day is kept, and
  the result is read back in the time zone. The amount is a whole number of days (the
  configuration schema asks for a positive number; the specification for an integer).
\<close>

definition subDays :: "jsRuntime \<Rightarrow> int \<Rightarrow> int \<Rightarrow> int" where
  "subDays rt date amount =
     (if amount = 0 then date
      else (let t = localTime rt date;
                newDate = makeDate (makeDay (yearFromTime t) (monthFromTime t)
                                      (dateFromTime t - amount))
                            (timeWithinDay t)
            in utcTime rt newDate))"

section \<open>The Date constructor on an ISO string\<close>

text \<open>The relational operator on two dates compares the time values; NaN is never less.\<close>

fun dateLess :: "jsDate \<Rightarrow> jsDate \<Rightarrow> bool" where
  "dateLess (TimeValue a) (TimeValue b) = (a < b)"
| "dateLess _ _ = False"

text \<open>
  \<open>new Date(`${year}-${month}-${day}T${hour}:${minute}:${second}.000Z`)\<close> on six strings
  of digits of widths 4, 2, 2, 2, 2, 2 (the shape the pattern of a literal name always
  gives). The string is in the ECMAScript date-time format; a month outside 1 to 12, a
  day outside 1 to 31 or a time of day out of range makes the date invalid; \<open>24:00:00\<close>
  is the end of the day. The day is not checked against the length of the month: the
  runtimes the program runs on (Bun, Node) read 30 February as 1 or 2 March, which is
  what MakeDay gives.
\<close>

definition newDateUtc ::
  "string \<Rightarrow> string \<Rightarrow> string \<Rightarrow> string \<Rightarrow> string \<Rightarrow> string \<Rightarrow> jsDate" where
  "newDateUtc year month dy hour minute second =
     (let y = int (readNat year); mo = int (readNat month); d = int (readNat dy);
          h = int (readNat hour); mi = int (readNat minute); s = int (readNat second)
      in if 1 \<le> mo \<and> mo \<le> 12 \<and> 1 \<le> d \<and> d \<le> 31 \<and>
            (h \<le> 23 \<and> mi \<le> 59 \<and> s \<le> 59 \<or> h = 24 \<and> mi = 0 \<and> s = 0)
         then TimeValue (makeDate (makeDay y (mo - 1) d) (makeTime h mi s 0))
         else InvalidDate)"

section \<open>S3Service\<close>

record S3Config =
  bucket :: string
  prefix :: "string option"
  endpointUrl :: "string option"
  region :: "string option"
  accessKeyId :: string
  secretAccessKey :: string

text \<open>
  \<open>createS3Path(dbName, folder)\<close>. The clock reading \<open>now\<close> (the value of
  \<open>new Date()\<close>) and the runtime are inputs. A segment is added when it is truthy.
\<close>

definition createS3Path ::
  "S3Config \<Rightarrow> jsRuntime \<Rightarrow> int \<Rightarrow> string \<Rightarrow> string option \<Rightarrow> string" where
  "createS3Path config rt now dbName folder =
     (let timestamp = formatTimestamp rt now;
          fileName = dbName @ ''_'' @ timestamp @ ''.dump'';
          path0 = [];
          path1 = (case prefix config of
                     None \<Rightarrow> path0
                   | Some p \<Rightarrow> if p \<noteq> [] then path0 @ p @ ''/'' else path0);
          path2 = (case folder of
                     None \<Rightarrow> path1
                   | Some f \<Rightarrow> if f \<noteq> [] then path1 @ f @ ''/'' else path1)
      in path2 @ fileName)"

definition createPrefix :: "S3Config \<Rightarrow> string \<Rightarrow> string" where
  "createPrefix config folder =
     (let prefix0 = [];
          prefix1 = (case prefix config of
                       None \<Rightarrow> prefix0
                     | Some p \<Rightarrow> if p \<noteq> [] then prefix0 @ p @ ''/'' else prefix0);
          prefix2 = (if folder \<noteq> [] then prefix1 @ folder @ ''/'' else prefix1)
      in prefix2)"

subsection \<open>The file name pattern\<close>

text \<open>
  \<open>new RegExp(`${dbName}_(\\d{8})_(\\d{6})\\.dump$`)\<close>. The database name is pasted into
  the pattern as it is. A name without the syntax characters of a regular expression,
  \<open>^ $ \ . * + ? ( ) [ ] { } |\<close> (given by their codes), stands for itself: every
  character of it is a literal, and the pattern is the list of atoms \<open>filePattern\<close>. The
  pattern is anchored at the end only, so \<open>match\<close> looks for the leftmost start from
  which the rest of the file name fits.
\<close>

definition regexSyntaxChar :: "char \<Rightarrow> bool" where
  "regexSyntaxChar c =
     (of_char c \<in> {94, 36, 92, 46, 42, 43, 63, 40, 41, 91, 93, 123, 125, 124 :: nat})"

definition literalName :: "string \<Rightarrow> bool" where
  "literalName dbName = list_all (\<lambda>c. \<not> regexSyntaxChar c) dbName"

datatype reAtom = ReChar char | ReDigit

fun atomMatches :: "reAtom \<Rightarrow> char \<Rightarrow> bool" where
  "atomMatches (ReChar a) c = (a = c)"
| "atomMatches ReDigit c = isDigit c"

definition filePattern :: "string \<Rightarrow> reAtom list" where
  "filePattern dbName =
     map ReChar dbName @ [ReChar CHR ''_''] @ replicate 8 ReDigit @
     [ReChar CHR ''_''] @ replicate 6 ReDigit @ map ReChar ''.dump''"

text \<open>\<open>fileName.match(filePattern)\<close>: the two capture groups of the leftmost match.\<close>

definition matchFilePattern :: "string \<Rightarrow> string \<Rightarrow> (string \<times> string) option" where
  "matchFilePattern dbName fileName =
     (case find (\<lambda>i. list_all2 atomMatches (filePattern dbName) (drop i fileName))
             [0 ..< Suc (length fileName)] of
        None \<Rightarrow> None
      | Some i \<Rightarrow>
          Some (take 8 (drop (i + length dbName + 1) fileName),
                take 6 (drop (i + length dbName + 10) fileName)))"

text \<open>\<open>s.substring(a, b)\<close> for \<open>a \<le> b\<close>.\<close>

definition substring :: "nat \<Rightarrow> nat \<Rightarrow> string \<Rightarrow> string" where
  "substring a b s = take (b - a) (drop a s)"

subsection \<open>The storage client\<close>

type_synonym chunk = "8 word list"

record s3Object =
  Key :: "string option"

record listResponse =
  Contents :: "s3Object list option"
  NextContinuationToken :: "string option"

text \<open>
  The storage service is outside the program. The client is modelled by what it answers:
  a page for a ListObjectsV2 command (bucket, prefix, continuation token), success or an
  error for a DeleteObject command (bucket, key), and the key of the stored object or an
  error for a multipart upload (bucket, key, the stream's chunks).
\<close>

record s3Client =
  listObjectsV2 :: "string \<Rightarrow> string \<Rightarrow> string option \<Rightarrow> jsError + listResponse"
  deleteObject :: "string \<Rightarrow> string \<Rightarrow> jsError + unit"
  upload :: "string \<Rightarrow> string \<Rightarrow> chunk list \<Rightarrow> jsError + string option"

subsection \<open>deleteOldBackups\<close>

text \<open>
  Lines 115 to 130: the pattern is built and matched against the file name, and the
  date is built from the two groups. \<open>Inr None\<close> is no match. For a name with syntax
  characters the answer is the one of the runtime.
\<close>

definition fileNameDate :: "jsRuntime \<Rightarrow> string \<Rightarrow> string \<Rightarrow> jsError + jsDate option" where
  "fileNameDate rt dbName fileName =
     (if literalName dbName
      then (case matchFilePattern dbName fileName of
              None \<Rightarrow> Inr None
            | Some (dateStr, timeStr) \<Rightarrow>
                (let year = substring 0 4 dateStr;
                     month = substring 4 6 dateStr;
                     dy = substring 6 8 dateStr;
                     hour = substring 0 2 timeStr;
                     minute = substring 2 4 timeStr;
                     second = substring 4 6 timeStr
                 in Inr (Some (newDateUtc year month dy hour minute second))))
      else regExpDate rt dbName fileName)"

text \<open>
  The part of the loop body that decides about one listed object: \<open>Inr None\<close> where the
  body runs \<open>continue\<close> or the name does not match, else the key and the date read from
  its file name, or the exception thrown.
\<close>

definition backupDateOfItem ::
  "jsRuntime \<Rightarrow> string \<Rightarrow> s3Object \<Rightarrow> jsError + (string \<times> jsDate) option" where
  "backupDateOfItem rt dbName item =
     (case Key item of
        None \<Rightarrow> Inr None
      | Some key \<Rightarrow>
          if key = [] then Inr None
          else (let fileName = last (splitOn CHR ''/'' key) in
                if fileName = [] then Inr None
                else (case fileNameDate rt dbName fileName of
                        Inl e \<Rightarrow> Inl e
                      | Inr None \<Rightarrow> Inr None
                      | Inr (Some backupDate) \<Rightarrow> Inr (Some (key, backupDate)))))"

text \<open>
  One iteration of the \<open>for\<close> loop. The accumulator is \<open>deletedCount\<close> and the keys of the
  DeleteObject commands that succeeded, in order. A failed command throws.
\<close>

definition processItem ::
  "S3Config \<Rightarrow> s3Client \<Rightarrow> jsRuntime \<Rightarrow> string \<Rightarrow> jsDate \<Rightarrow> s3Object
     \<Rightarrow> nat \<times> string list \<Rightarrow> jsError + nat \<times> string list" where
  "processItem config client rt dbName cutoffDate item acc =
     (case backupDateOfItem rt dbName item of
        Inl e \<Rightarrow> Inl e
      | Inr None \<Rightarrow> Inr acc
      | Inr (Some (key, backupDate)) \<Rightarrow>
          if dateLess backupDate cutoffDate
          then (case deleteObject client (bucket config) key of
                  Inl e \<Rightarrow> Inl e
                | Inr u \<Rightarrow> Inr (Suc (fst acc), snd acc @ [key]))
          else Inr acc)"

fun processContents ::
  "S3Config \<Rightarrow> s3Client \<Rightarrow> jsRuntime \<Rightarrow> string \<Rightarrow> jsDate \<Rightarrow> s3Object list
     \<Rightarrow> nat \<times> string list \<Rightarrow> jsError + nat \<times> string list" where
  "processContents config client rt dbName cutoffDate [] acc = Inr acc"
| "processContents config client rt dbName cutoffDate (item # items) acc =
     (case processItem config client rt dbName cutoffDate item acc of
        Inl e \<Rightarrow> Inl e
      | Inr acc' \<Rightarrow> processContents config client rt dbName cutoffDate items acc')"

text \<open>
  The \<open>do ... while (continuationToken)\<close> loop. Whether it ends depends on the tokens the
  service returns, so it is a partial function: \<open>None\<close> is a loop that never ends.
\<close>

partial_function (option) listLoop ::
  "S3Config \<Rightarrow> s3Client \<Rightarrow> jsRuntime \<Rightarrow> string \<Rightarrow> string \<Rightarrow> jsDate \<Rightarrow> string option
     \<Rightarrow> nat \<times> string list \<Rightarrow> (jsError + nat \<times> string list) option" where
  "listLoop config client rt dbName pfx cutoffDate continuationToken acc =
     (case listObjectsV2 client (bucket config) pfx continuationToken of
        Inl e \<Rightarrow> Some (Inl e)
      | Inr listResponse \<Rightarrow>
          (case (case Contents listResponse of
                   None \<Rightarrow> Inr acc
                 | Some items \<Rightarrow>
                     processContents config client rt dbName cutoffDate items acc) of
             Inl e \<Rightarrow> Some (Inl e)
           | Inr acc' \<Rightarrow>
               if truthy (NextContinuationToken listResponse)
               then listLoop config client rt dbName pfx cutoffDate
                      (NextContinuationToken listResponse) acc'
               else Some (Inr acc')))"

text \<open>
  \<open>deleteOldBackups(dbName, folder, retentionDays)\<close>: the result is the count returned
  (with the keys deleted), or the error rethrown by the \<open>catch\<close> block. The clock
  reading \<open>now\<close> is the value of \<open>new Date()\<close>.
\<close>

definition deleteOldBackups ::
  "S3Config \<Rightarrow> s3Client \<Rightarrow> jsRuntime \<Rightarrow> int \<Rightarrow> string \<Rightarrow> string \<Rightarrow> int
     \<Rightarrow> (jsError + nat \<times> string list) option" where
  "deleteOldBackups config client rt now dbName folder retentionDays =
     (let pfx = createPrefix config folder;
          cutoffDate = TimeValue (subDays rt now retentionDays)
      in listLoop config client rt dbName pfx cutoffDate None (0, []))"

text \<open>\<open>uploadStream(stream, key)\<close>: \<open>result.Key || key\<close>, or the error rethrown.\<close>

definition uploadStream :: "S3Config \<Rightarrow> s3Client \<Rightarrow> chunk list \<Rightarrow> string \<Rightarrow> jsError + string" where
  "uploadStream config client stream key =
     (case upload client (bucket config) key stream of
        Inl e \<Rightarrow> Inl e
      | Inr resultKey \<Rightarrow>
          Inr (case resultKey of
                 None \<Rightarrow> key
               | Some k \<Rightarrow> if k \<noteq> [] then k else key))"

section \<open>DatabaseService.createDumpStream\<close>

text \<open>
  One run of the \<open>pg_dump\<close> subprocess, as the program sees it: the chunks it writes to
  its standard output until it ends, and how it ends (an exit code, or \<open>null\<close> and a
  signal).
\<close>

record pgDumpRun =
  stdoutChunks :: "chunk list"
  exitCode :: "int option"
  exitSignal :: "string option"

datatype logLevel = LogInfo | LogWarn | LogError

text \<open>
  The \<open>exit\<close> handler: \<open>code !== 0\<close> is logged as an error, the normal exit as an
  information. It does nothing else.
\<close>

definition onExit :: "int option \<Rightarrow> string option \<Rightarrow> logLevel" where
  "onExit code signal = (if code \<noteq> Some 0 then LogError else LogInfo)"

text \<open>
  \<open>createDumpStream(connectionDetails)\<close> spawns the subprocess, registers handlers on
  \<open>stderr\<close>, \<open>error\<close>, \<open>exit\<close> and \<open>stdout\<close> that write to the log, and returns
  \<open>pgDump.stdout\<close>. The result here is that stream with the log level written by the
  \<open>exit\<close> handler; the stream ends when the subprocess ends, whatever its exit code.
  The progress and \<open>stderr\<close> handlers only log and are left out.
\<close>

definition createDumpStream ::
  "(ConnectionDetails \<Rightarrow> pgDumpRun) \<Rightarrow> ConnectionDetails \<Rightarrow> chunk list \<times> logLevel list" where
  "createDumpStream pgDump connectionDetails =
     (let run = pgDump connectionDetails
      in (stdoutChunks run, [onExit (exitCode run) (exitSignal run)]))"

section \<open>runBackups\<close>

record DatabaseConfig =
  name :: string
  connection :: string
  folder :: "string option"
  retention_days :: int

record BackupResult =
  res_database :: string
  success :: bool
  path :: "string option"
  error :: "jsError option"
  deletedBackups :: "nat option"

text \<open>
  What the outside world does while one database is processed: the answer of the server
  to the version query, the clock when the key is made, the run of the dump subprocess,
  the storage service, and the clock when retention is enforced.
\<close>

record dbWorld =
  serverVersion :: "ConnectionDetails \<Rightarrow> jsError + int"
  keyClock :: int
  pgDump :: "ConnectionDetails \<Rightarrow> pgDumpRun"
  storage :: s3Client
  retentionClock :: int

text \<open>
  The body of the \<open>try\<close> block for one database: the uploaded key and the number of
  deleted backups, or the exception thrown. \<open>None\<close> is a retention listing that never
  ends. The version comparison only logs a warning.
\<close>

definition backupDatabase ::
  "S3Config \<Rightarrow> jsRuntime \<Rightarrow> int \<Rightarrow> dbWorld \<Rightarrow> DatabaseConfig
     \<Rightarrow> (jsError + string \<times> nat) option" where
  "backupDatabase s3Config rt clientVersion world dbConfig =
     (case parseConnectionString (connection dbConfig) of
        Inl e \<Rightarrow> Some (Inl e)
      | Inr connectionDetails \<Rightarrow>
          (case serverVersion world connectionDetails of
             Inl e \<Rightarrow> Some (Inl e)
           | Inr version \<Rightarrow>
               (let s3Key = createS3Path s3Config rt (keyClock world)
                              (name dbConfig) (folder dbConfig);
                    dumpStream = fst (createDumpStream (pgDump world) connectionDetails)
                in case uploadStream s3Config (storage world) dumpStream s3Key of
                     Inl e \<Rightarrow> Some (Inl e)
                   | Inr uploadedKey \<Rightarrow>
                       (case deleteOldBackups s3Config (storage world) rt
                               (retentionClock world) (name dbConfig)
                               (case folder dbConfig of None \<Rightarrow> [] | Some f \<Rightarrow> f)
                               (retention_days dbConfig) of
                          None \<Rightarrow> None
                        | Some (Inl e) \<Rightarrow> Some (Inl e)
                        | Some (Inr deleted) \<Rightarrow> Some (Inr (uploadedKey, fst deleted))))))"

text \<open>The \<open>try\<close> and \<open>catch\<close> around it: the result pushed for the database.\<close>

definition processDatabase ::
  "S3Config \<Rightarrow> jsRuntime \<Rightarrow> int \<Rightarrow> dbWorld \<Rightarrow> DatabaseConfig \<Rightarrow> BackupResult option" where
  "processDatabase s3Config rt clientVersion world dbConfig =
     (case backupDatabase s3Config rt clientVersion world dbConfig of
        None \<Rightarrow> None
      | Some (Inr done) \<Rightarrow>
          Some \<lparr> res_database = name dbConfig, success = True, path = Some (fst done),
                 error = None, deletedBackups = Some (snd done) \<rparr>
      | Some (Inl e) \<Rightarrow>
          Some \<lparr> res_database = name dbConfig, success = False, path = None,
                 error = Some e, deletedBackups = None \<rparr>)"

text \<open>
  The \<open>for\<close> loop over the connections. \<open>worlds i\<close> is what the \<open>i\<close>-th database of
  the list meets; \<open>results\<close> is the array the results are pushed to.
\<close>

fun runLoop ::
  "S3Config \<Rightarrow> jsRuntime \<Rightarrow> int \<Rightarrow> (nat \<Rightarrow> dbWorld) \<Rightarrow> nat \<Rightarrow> DatabaseConfig list
     \<Rightarrow> BackupResult list \<Rightarrow> BackupResult list option" where
  "runLoop s3Config rt clientVersion worlds i [] results = Some results"
| "runLoop s3Config rt clientVersion worlds i (dbConfig # rest) results =
     (case processDatabase s3Config rt clientVersion (worlds i) dbConfig of
        None \<Rightarrow> None
      | Some result \<Rightarrow>
          runLoop s3Config rt clientVersion worlds (Suc i) rest (results @ [result]))"

text \<open>
  The run as a whole. Its inputs are the environment variables, the runtime, the outcome
  of \<open>getClientVersion()\<close>, the outcome of reading and validating the connections file,
  and the worlds of the databases.
\<close>

record runWorld =
  env :: "string \<Rightarrow> string option"
  runtime :: jsRuntime
  clientVersionProbe :: "jsError + int"
  connectionsFile :: "jsError + DatabaseConfig list"
  dbWorlds :: "nat \<Rightarrow> dbWorld"

definition envOrEmpty :: "runWorld \<Rightarrow> string \<Rightarrow> string" where
  "envOrEmpty w v = (case env w v of None \<Rightarrow> [] | Some s \<Rightarrow> s)"

definition s3ConfigOf :: "runWorld \<Rightarrow> S3Config" where
  "s3ConfigOf w =
     \<lparr> bucket = envOrEmpty w ''S3_BUCKET'',
       prefix = env w ''S3_PREFIX'',
       endpointUrl = env w ''S3_ENDPOINT_URL'',
       region = env w ''AWS_REGION'',
       accessKeyId = envOrEmpty w ''AWS_ACCESS_KEY_ID'',
       secretAccessKey = envOrEmpty w ''AWS_SECRET_ACCESS_KEY'' \<rparr>"

text \<open>
  \<open>runBackups()\<close>: the exit status of the process and the results. Every exception of
  the outer \<open>try\<close> block ends in \<open>process.exit(1)\<close>; when the function returns
  normally the process ends with status 0. \<open>None\<close> is a run that never ends.
\<close>

definition runBackups :: "runWorld \<Rightarrow> (nat \<times> BackupResult list) option" where
  "runBackups w =
     (if \<not> list_all (\<lambda>envVar. truthy (env w envVar))
             [''AWS_ACCESS_KEY_ID'', ''AWS_SECRET_ACCESS_KEY'', ''S3_BUCKET'']
      then Some (1, [])
      else (case clientVersionProbe w of
              Inl e \<Rightarrow> Some (1, [])
            | Inr clientVersion \<Rightarrow>
                (case connectionsFile w of
                   Inl e \<Rightarrow> Some (1, [])
                 | Inr connections \<Rightarrow>
                     (case runLoop (s3ConfigOf w) (runtime w) clientVersion (dbWorlds w)
                             0 connections [] of
                        None \<Rightarrow> None
                      | Some results \<Rightarrow>
                          if list_all success results then Some (0, results)
                          else Some (1, results)))))"

section \<open>Vocabulary of the properties\<close>

subsection \<open>What deleteOldBackups deletes\<close>

text \<open>
  The keys of the listed objects that the loop body deletes, in listing order: those whose
  file name fits the pattern and whose date is before the cutoff.
\<close>

definition datedItem :: "jsRuntime \<Rightarrow> string \<Rightarrow> s3Object \<Rightarrow> (string \<times> jsDate) option" where
  "datedItem rt dbName item =
     (case backupDateOfItem rt dbName item of Inl e \<Rightarrow> None | Inr kd \<Rightarrow> kd)"

definition expiredKeys :: "jsRuntime \<Rightarrow> string \<Rightarrow> jsDate \<Rightarrow> s3Object list \<Rightarrow> string list" where
  "expiredKeys rt dbName cutoffDate items =
     map fst (filter (\<lambda>kd. dateLess (snd kd) cutoffDate)
                (List.map_filter (datedItem rt dbName) items))"

text \<open>The objects of a page (\<open>Contents\<close> may be absent), and of a list of pages.\<close>

definition pageItems :: "listResponse \<Rightarrow> s3Object list" where
  "pageItems page = (case Contents page of None \<Rightarrow> [] | Some items \<Rightarrow> items)"

definition allItems :: "listResponse list \<Rightarrow> s3Object list" where
  "allItems pages = concat (map pageItems pages)"

text \<open>
  The service answers a listing with the given pages: the first for the given token, each
  next one for the token of the page before, and only the last one without a token.
\<close>

fun servesPages ::
  "s3Client \<Rightarrow> string \<Rightarrow> string \<Rightarrow> string option \<Rightarrow> listResponse list \<Rightarrow> bool" where
  "servesPages client b pfx token [] = False"
| "servesPages client b pfx token [page] =
     (listObjectsV2 client b pfx token = Inr page \<and> \<not> truthy (NextContinuationToken page))"
| "servesPages client b pfx token (page # next # pages) =
     (listObjectsV2 client b pfx token = Inr page \<and> truthy (NextContinuationToken page) \<and>
      servesPages client b pfx (NextContinuationToken page) (next # pages))"

subsection \<open>Doubled separators\<close>

text \<open>A string has a doubled separator when two \<open>/\<close> stand next to each other.\<close>

fun hasDoubleSlash :: "string \<Rightarrow> bool" where
  "hasDoubleSlash (a # b # r) = (a = CHR ''/'' \<and> b = CHR ''/'' \<or> hasDoubleSlash (b # r))"
| "hasDoubleSlash [a] = False"
| "hasDoubleSlash [] = False"

text \<open>A segment that brings no doubled separator: no \<open>//\<close> in it, no \<open>/\<close> at its ends.\<close>

definition cleanSegment :: "string \<Rightarrow> bool" where
  "cleanSegment s =
     (\<not> hasDoubleSlash s \<and>
      (case s of [] \<Rightarrow> True | c # r \<Rightarrow> c \<noteq> CHR ''/'' \<and> last s \<noteq> CHR ''/''))"

subsection \<open>Runtimes of the examples\<close>

text \<open>
  A process in a time zone of constant offset, given in minutes east of Greenwich. The
  examples use database names without syntax characters, for which the runtime is not
  asked about a pattern; that component finds no match.
\<close>

definition fixedOffsetRuntime :: "int \<Rightarrow> jsRuntime" where
  "fixedOffsetRuntime minutes =
     \<lparr> localTZA = (\<lambda>t isUTC. minutes * msPerMinute),
       regExpDate = (\<lambda>dbName fileName. Inr None) \<rparr>"

text \<open>
  A process in the time zone America/New_York, with its rules of the year 2024:
  UTC-05:00 until 10 March 07:00 UTC (1710054000000), UTC-04:00 until 3 November 06:00
  UTC (1730613600000), UTC-05:00 after. A local time is read with the offset before
  the transition up to 10 March 03:00 (1710039600000) and 3 November 02:00
  (1730599200000) of the local clock.
\<close>

definition newYorkRuntime :: jsRuntime where
  "newYorkRuntime =
     \<lparr> localTZA = (\<lambda>t isUTC.
         if isUTC
         then (if t < 1710054000000 then - 5 * msPerHour
               else if t < 1730613600000 then - 4 * msPerHour else - 5 * msPerHour)
         else (if t < 1710039600000 then - 5 * msPerHour
               else if t < 1730599200000 then - 4 * msPerHour else - 5 * msPerHour)),
       regExpDate = (\<lambda>dbName fileName. Inr None) \<rparr>"

subsection \<open>A concrete run\<close>

text \<open>
  A storage service with no object, and a world in which the server answers, the dump
  subprocess writes three bytes and ends with the given exit code and signal, and every
  storage command succeeds. The clocks read 2024-01-01T00:00:00Z.
\<close>

definition emptyStorage :: s3Client where
  "emptyStorage =
     \<lparr> listObjectsV2 = (\<lambda>b p tok. Inr \<lparr> Contents = None, NextContinuationToken = None \<rparr>),
       deleteObject = (\<lambda>b k. Inr ()),
       upload = (\<lambda>b k s. Inr None) \<rparr>"

definition dumpWorld :: "int option \<Rightarrow> string option \<Rightarrow> dbWorld" where
  "dumpWorld code signal =
     \<lparr> serverVersion = (\<lambda>cd. Inr 16),
       keyClock = 1704067200000,
       pgDump = (\<lambda>cd. \<lparr> stdoutChunks = [[1, 2, 3]], exitCode = code, exitSignal = signal \<rparr>),
       storage = emptyStorage,
       retentionClock = 1704067200000 \<rparr>"

definition exampleS3Config :: S3Config where
  "exampleS3Config =
     \<lparr> bucket = ''b'', prefix = None, endpointUrl = None, region = None,
       accessKeyId = ''id'', secretAccessKey = ''secret'' \<rparr>"

definition exampleRun :: runWorld where
  "exampleRun =
     \<lparr> env = (\<lambda>v. if v = ''S3_BUCKET'' then Some ''b''
                   else if v = ''AWS_ACCESS_KEY_ID'' then Some ''id''
                   else if v = ''AWS_SECRET_ACCESS_KEY'' then Some ''secret''
                   else None),
       runtime = fixedOffsetRuntime 0,
       clientVersionProbe = Inr 16,
       connectionsFile =
         Inr [\<lparr> name = ''a'', connection = ''postgres://nohost'', folder = None,
                 retention_days = 30 \<rparr>,
              \<lparr> name = ''b'', connection = ''postgres://u:p@h:5432/d'', folder = None,
                 retention_days = 30 \<rparr>],
       dbWorlds = (\<lambda>i. dumpWorld (Some 0) None) \<rparr>"

section \<open>Properties of splitting\<close>

lemma splitOn_nonempty: "splitOn c s \<noteq> []"
  by (induction s) (auto split: list.splits)

lemma splitOn_no_sep: "c \<notin> set s \<Longrightarrow> splitOn c s = [s]"
  by (induction s) auto

lemma splitOn_first_sep:
  "c \<notin> set a \<Longrightarrow> splitOn c (a @ c # r) = a # splitOn c r"
  by (induction a) auto

lemma splitOn_length_sep: "c \<in> set s \<Longrightarrow> 2 \<le> length (splitOn c s)"
proof (induction s)
  case Nil
  then show ?case by simp
next
  case (Cons x xs)
  show ?case
  proof (cases "x = c")
    case True
    then show ?thesis
      using splitOn_nonempty [of c xs] by (cases "splitOn c xs") auto
  next
    case False
    with Cons show ?thesis
      by (cases "splitOn c xs") auto
  qed
qed

lemma nthOpt_Suc0_None: "nthOpt xs (Suc 0) = None \<longleftrightarrow> length xs \<le> 1"
  by (cases xs; cases "tl xs") auto

lemma nthOpt_1_splitOn: "nthOpt (splitOn c s) 1 = None \<longleftrightarrow> c \<notin> set s"
proof
  assume "nthOpt (splitOn c s) 1 = None"
  then have "length (splitOn c s) \<le> 1" by (simp add: nthOpt_Suc0_None)
  then show "c \<notin> set s" using splitOn_length_sep [of c s] by auto
next
  assume "c \<notin> set s"
  then show "nthOpt (splitOn c s) 1 = None" by (simp add: splitOn_no_sep)
qed

section \<open>The calendar lemmas\<close>

lemma yearSearch_spec:
  "dayFromYear y \<le> d \<Longrightarrow>
     dayFromYear (yearSearch y d) \<le> d \<and> d < dayFromYear (yearSearch y d + 1)"
proof (induction y d rule: yearSearch.induct)
  case (1 y d)
  show ?case
  proof (cases "dayFromYear (y + 1) \<le> d")
    case True
    with 1 show ?thesis by (simp add: yearSearch.simps [of y d])
  next
    case False
    with 1 show ?thesis by (simp add: yearSearch.simps [of y d])
  qed
qed

lemma yearFromDay_start:
  "dayFromYear (1970 + (if 0 \<le> d then d div 366 else d div 365)) \<le> d"
proof (cases "0 \<le> d")
  case True
  have "0 \<le> d div 366" using True by simp
  then have "dayFromYear (1970 + d div 366) \<le> 366 * (d div 366)"
    using dayFromYear_upper [of 1970 "1970 + d div 366"] by (simp add: dayFromYear_1970)
  also have "\<dots> \<le> d" by simp
  finally show ?thesis using True by simp
next
  case False
  then have "d div 365 \<le> 0" using div_neg_pos_less0 [of d 365] by simp
  then have "dayFromYear (1970 + d div 365) \<le> 365 * (d div 365)"
    using dayFromYear_lower [of "1970 + d div 365" 1970] by (simp add: dayFromYear_1970)
  also have "\<dots> \<le> d" by simp
  finally show ?thesis using False by simp
qed

lemma yearFromDay_spec:
  "dayFromYear (yearFromDay d) \<le> d \<and> d < dayFromYear (yearFromDay d + 1)"
  unfolding yearFromDay_def by (rule yearSearch_spec) (rule yearFromDay_start)

lemma yearFromDay_unique:
  assumes "dayFromYear y \<le> d" "d < dayFromYear (y + 1)"
  shows "yearFromDay d = y"
proof (rule ccontr)
  assume ne: "yearFromDay d \<noteq> y"
  let ?z = "yearFromDay d"
  have s: "dayFromYear ?z \<le> d" "d < dayFromYear (?z + 1)"
    using yearFromDay_spec [of d] by auto
  show False
  proof (cases "?z < y")
    case True
    then have "?z + 1 \<le> y" by simp
    then have "dayFromYear (?z + 1) \<le> dayFromYear y"
      using dayFromYear_lower [of "?z + 1" y] by simp
    with s assms show False by simp
  next
    case False
    with ne have "y + 1 \<le> ?z" by simp
    then have "dayFromYear (y + 1) \<le> dayFromYear ?z"
      using dayFromYear_lower [of "y + 1" ?z] by simp
    with s assms show False by simp
  qed
qed

lemma dayWithinYear_bounds: "0 \<le> dayWithinYear t" "dayWithinYear t < 365 + inLeapYear t"
  using yearFromDay_spec [of "day t"]
  by (simp_all add: dayWithinYear_def inLeapYear_def yearFromTime_def dayFromYear_Suc)

lemma inLeapYear_cases: "inLeapYear t = 0 \<or> inLeapYear t = 1"
  using daysInYear_cases [of "yearFromTime t"] by (auto simp: inLeapYear_def)

lemma monthFromYearDay_range: "0 \<le> monthFromYearDay l d \<and> monthFromYearDay l d \<le> 11"
  by (simp add: monthFromYearDay_def)

lemma monthFromTime_range: "0 \<le> monthFromTime t" "monthFromTime t \<le> 11"
  using monthFromYearDay_range by (simp_all add: monthFromTime_def)

text \<open>MakeDay undoes YearFromTime, MonthFromTime and DateFromTime, also with a day offset.\<close>

lemma makeDay_fields:
  "makeDay (yearFromTime t) (monthFromTime t) (dateFromTime t + k) = day t + k"
proof -
  have "monthFromTime t div 12 = 0" "monthFromTime t mod 12 = monthFromTime t"
    using monthFromTime_range [of t] by simp_all
  then show ?thesis
    by (simp add: makeDay_def dateFromTime_def dayWithinYear_def inLeapYear_def)
qed

section \<open>Digits\<close>

lemma digit_cases: "n < 10 \<Longrightarrow> n \<in> {0, 1, 2, 3, 4, 5, 6, 7, 8, 9 :: nat}"
  by auto

lemma digitVal_digitChar: "n < 10 \<Longrightarrow> digitVal (digitChar n) = n"
  using digit_cases [of n] by (auto simp: digitVal_def digitChar_def)

lemma isDigit_digitChar: "n < 10 \<Longrightarrow> isDigit (digitChar n)"
  using digit_cases [of n] by (auto simp: isDigit_def digitChar_def)

lemma readNat_snoc: "readNat (s @ [c]) = 10 * readNat s + digitVal c"
  by (simp add: readNat_def)

lemma readNat_showNat: "readNat (showNat n) = n"
proof (induction n rule: showNat.induct)
  case (1 n)
  show ?case
  proof (cases "n < 10")
    case True
    then show ?thesis
      by (simp add: showNat.simps [of n] readNat_def digitVal_digitChar)
  next
    case False
    with 1 show ?thesis
      by (simp add: showNat.simps [of n] readNat_snoc digitVal_digitChar)
  qed
qed

lemma readNat_zeros: "readNat (replicate k CHR ''0'' @ s) = readNat s"
proof -
  have "foldl (\<lambda>a c. 10 * a + digitVal c) 0 (replicate k CHR ''0'') = 0"
    by (induction k) (simp_all add: digitVal_def)
  then show ?thesis by (simp add: readNat_def)
qed

lemma showNat_digits: "list_all isDigit (showNat n)"
proof (induction n rule: showNat.induct)
  case (1 n)
  show ?case
  proof (cases "n < 10")
    case True
    then show ?thesis by (simp add: showNat.simps [of n] isDigit_digitChar)
  next
    case False
    with 1 show ?thesis by (simp add: showNat.simps [of n] isDigit_digitChar)
  qed
qed

lemma length_showNat: "0 < k \<Longrightarrow> n < 10 ^ k \<Longrightarrow> length (showNat n) \<le> k"
proof (induction n arbitrary: k rule: showNat.induct)
  case (1 n)
  show ?case
  proof (cases "n < 10")
    case True
    with 1 show ?thesis by (simp add: showNat.simps [of n])
  next
    case False
    obtain j where k: "k = Suc j" using "1.prems" by (cases k) auto
    have j: "0 < j" using False "1.prems" k by (cases j) auto
    have "n div 10 < 10 ^ j" using "1.prems" k by (simp add: less_mult_imp_div_less mult.commute)
    then have "length (showNat (n div 10)) \<le> j" using "1.IH" [OF False j] by simp
    then show ?thesis using False k by (simp add: showNat.simps [of n])
  qed
qed

lemma addLeadingZeros_nonneg:
  assumes "0 \<le> x" "x < 10 ^ k" "0 < k"
  shows "length (addLeadingZeros x k) = k"
    and "list_all isDigit (addLeadingZeros x k)"
    and "readNat (addLeadingZeros x k) = nat x"
proof -
  have l: "length (showNat (nat x)) \<le> k"
    using assms by (intro length_showNat) (auto simp: nat_less_iff)
  have z: "isDigit CHR ''0''" by (simp add: isDigit_def)
  show "length (addLeadingZeros x k) = k"
    using assms l by (simp add: addLeadingZeros_def padStart_def)
  show "list_all isDigit (addLeadingZeros x k)"
    using assms z showNat_digits [of "nat x"]
    by (auto simp: addLeadingZeros_def padStart_def list_all_iff)
  show "readNat (addLeadingZeros x k) = nat x"
    using assms by (simp add: addLeadingZeros_def padStart_def readNat_zeros readNat_showNat)
qed

text \<open>
  Beyond \<open>2^53\<close> parseInt rounds to a double: \<open>parseInt('9007199254740993', 10)\<close> is
  9007199254740992.
\<close>

lemma parseInt10_rounds:
  "parseInt10 ''9007199254740993'' = Number 9007199254740992"
  by code_simp

section \<open>Time of day and day of month\<close>

lemma mod_range_int: "0 < (k::int) \<Longrightarrow> 0 \<le> x mod k \<and> x mod k \<le> k - 1"
  using pos_mod_bound [of k x] pos_mod_sign [of k x] by simp

lemma hourFromTime_range: "0 \<le> hourFromTime t" "hourFromTime t \<le> 23"
  unfolding hourFromTime_def using mod_range_int [of 24 "t div msPerHour"] by simp_all

lemma minFromTime_range: "0 \<le> minFromTime t" "minFromTime t \<le> 59"
  unfolding minFromTime_def using mod_range_int [of 60 "t div msPerMinute"] by simp_all

lemma secFromTime_range: "0 \<le> secFromTime t" "secFromTime t \<le> 59"
  unfolding secFromTime_def using mod_range_int [of 60 "t div msPerSecond"] by simp_all

text \<open>The time within the day is made of the hour, minute, second and millisecond.\<close>

lemma timeWithinDay_fields:
  "timeWithinDay t =
     makeTime (hourFromTime t) (minFromTime t) (secFromTime t) (msFromTime t)"
proof -
  define H where "H = t div 3600000 mod 24"
  define M where "M = t div 60000 mod 60"
  define S where "S = t div 1000 mod 60"
  define R where "R = t mod 1000"
  define R1 where "R1 = t mod 60000"
  define R2 where "R2 = t mod 3600000"
  define R3 where "R3 = t mod 86400000"
  have n: "(3600000::int) * 24 = 86400000" "(60000::int) * 60 = 3600000"
    "(1000::int) * 60 = 60000" by simp_all
  have "t mod (3600000 * 24) = 3600000 * (t div 3600000 mod 24) + t mod 3600000"
    by (rule zmod_zmult2_eq) simp
  then have a: "R3 = 3600000 * H + R2" unfolding n H_def R2_def R3_def .
  have "t mod (60000 * 60) = 60000 * (t div 60000 mod 60) + t mod 60000"
    by (rule zmod_zmult2_eq) simp
  then have b: "R2 = 60000 * M + R1" unfolding n M_def R1_def R2_def .
  have "t mod (1000 * 60) = 1000 * (t div 1000 mod 60) + t mod 1000"
    by (rule zmod_zmult2_eq) simp
  then have c: "R1 = 1000 * S + R" unfolding n S_def R_def R1_def .
  have e: "R3 = H * 3600000 + M * 60000 + S * 1000 + (R::int)"
    using a b c by simp
  show ?thesis
    unfolding timeWithinDay_def makeTime_def hourFromTime_def minFromTime_def
      secFromTime_def msFromTime_def msPerDay_def msPerHour_def msPerMinute_def
      msPerSecond_def
    using e unfolding H_def M_def S_def R_def R3_def .
qed

lemma makeDate_day: "makeDate (day t) (timeWithinDay t) = t"
  by (simp add: makeDate_def day_def timeWithinDay_def)

lemma makeTime_seconds:
  "makeTime (hourFromTime t) (minFromTime t) (secFromTime t) 0 = timeWithinDay t - t mod 1000"
proof -
  define H where "H = hourFromTime t"
  define M where "M = minFromTime t"
  define S where "S = secFromTime t"
  define R where "R = t mod 1000"
  define W where "W = timeWithinDay t"
  have "W = makeTime H M S R"
    using timeWithinDay_fields [of t]
    unfolding msFromTime_def msPerSecond_def H_def M_def S_def R_def W_def .
  then have "makeTime H M S 0 = W - R" by (simp add: makeTime_def)
  then show ?thesis unfolding H_def M_def S_def R_def W_def .
qed

lemma dateFromTime_range:
  "1 \<le> dateFromTime t"
  "dateFromTime t \<le> 31"
proof -
  define l where "l = inLeapYear t"
  define d where "d = dayWithinYear t"
  have l: "l = 0 \<or> l = 1" using inLeapYear_cases [of t] by (simp add: l_def)
  have d: "0 \<le> d" "d < 365 + l" using dayWithinYear_bounds [of t] by (simp_all add: l_def d_def)
  have e: "dateFromTime t = d - daysBeforeMonth l (monthFromYearDay l d) + 1"
    by (simp add: dateFromTime_def monthFromTime_def l_def d_def)
  show "1 \<le> dateFromTime t"
    unfolding e using l d by (auto simp: monthFromYearDay_def daysBeforeMonth_def)
  show "dateFromTime t \<le> 31"
    unfolding e using l d by (auto simp: monthFromYearDay_def daysBeforeMonth_def)
qed

text \<open>
  subDays moves the local time by whole days of 24 hours and reads the result with the
  offset the time zone has at that local time.
\<close>

lemma subDays_eq:
  "subDays rt date amount =
     (if amount = 0 then date
      else localTime rt date - amount * msPerDay
             - localTZA rt (localTime rt date - amount * msPerDay) False)"
proof -
  let ?t = "localTime rt date"
  have "makeDay (yearFromTime ?t) (monthFromTime ?t) (dateFromTime ?t - amount) = day ?t - amount"
    using makeDay_fields [of ?t "- amount"] by simp
  then have a: "amount \<noteq> 0 \<Longrightarrow> subDays rt date amount
      = utcTime rt (makeDate (day ?t - amount) (timeWithinDay ?t))"
    by (simp add: subDays_def Let_def)
  have b: "makeDate (day ?t - amount) (timeWithinDay ?t) = ?t - amount * msPerDay"
    using makeDate_day [of ?t] by (simp add: makeDate_def algebra_simps)
  show ?thesis
  proof (cases "amount = 0")
    case True
    then show ?thesis by (simp add: subDays_def)
  next
    case False
    have "subDays rt date amount = utcTime rt (?t - amount * msPerDay)"
      using a [OF False] by (simp only: b)
    then show ?thesis using False by (simp add: utcTime_def)
  qed
qed

text \<open>
  When the offset at that local time is the offset at the date itself, the instant moves
  by whole days of 24 hours.
\<close>

lemma subDays_same_offset:
  assumes "localTZA rt (localTime rt date - amount * msPerDay) False = localTZA rt date True"
  shows "subDays rt date amount = date - amount * msPerDay"
  unfolding subDays_eq using assms by (simp add: localTime_def)

section \<open>The file name of a key and the pattern\<close>

lemma last_splitOn_no_sep: "c \<notin> set f \<Longrightarrow> last (splitOn c f) = f"
  by (simp add: splitOn_no_sep)

lemma last_splitOn_sep: "c \<notin> set f \<Longrightarrow> last (splitOn c (p @ c # f)) = f"
proof (induction p)
  case Nil
  then show ?case by (simp add: splitOn_no_sep)
next
  case (Cons x p)
  have ne: "splitOn c (p @ c # f) \<noteq> []" by (rule splitOn_nonempty)
  have len: "2 \<le> length (splitOn c (p @ c # f))" by (rule splitOn_length_sep) simp
  show ?case
  proof (cases "x = c")
    case True
    with Cons ne show ?thesis by simp
  next
    case False
    obtain y ys where s: "splitOn c (p @ c # f) = y # ys" using ne by (cases "splitOn c (p @ c # f)") auto
    with len have "ys \<noteq> []" by auto
    with Cons s False show ?thesis by simp
  qed
qed

text \<open>A name fits the pattern when it is the database name, \<open>_\<close>, 8 digits, \<open>_\<close>, 6 digits, \<open>.dump\<close>.\<close>

lemma list_all2_ReChar: "list_all2 atomMatches (map ReChar xs) ys \<longleftrightarrow> xs = ys"
proof (induction xs arbitrary: ys)
  case Nil
  show ?case by auto
next
  case (Cons x xs)
  then show ?case by (cases ys) auto
qed

lemma list_all2_ReDigit:
  "list_all2 atomMatches (replicate n ReDigit) ys \<longleftrightarrow> length ys = n \<and> list_all isDigit ys"
proof (induction n arbitrary: ys)
  case 0
  show ?case by auto
next
  case (Suc n)
  then show ?case by (cases ys) auto
qed

lemma filePattern_length: "length (filePattern dbName) = length dbName + 21"
  by (simp add: filePattern_def)

lemma filePattern_fits:
  assumes "length d8 = 8" "list_all isDigit d8" "length d6 = 6" "list_all isDigit d6"
  shows "list_all2 atomMatches (filePattern dbName)
           (dbName @ ''_'' @ d8 @ ''_'' @ d6 @ ''.dump'')"
proof -
  have a: "list_all2 atomMatches (map ReChar dbName) dbName" by (simp add: list_all2_ReChar)
  have b: "list_all2 atomMatches [ReChar CHR ''_''] ''_''" by simp
  have c: "list_all2 atomMatches (replicate 8 ReDigit) d8"
    using assms(1,2) list_all2_ReDigit [of 8 d8] by blast
  have d: "list_all2 atomMatches (replicate 6 ReDigit) d6"
    using assms(3,4) list_all2_ReDigit [of 6 d6] by blast
  have e: "list_all2 atomMatches (map ReChar ''.dump'') ''.dump''"
    by (simp only: list_all2_ReChar)
  show ?thesis
    unfolding filePattern_def
    by (intro list_all2_appendI a b c d e)
qed

lemma list_all2_append_split:
  "list_all2 P (xs @ ys) zs \<Longrightarrow> \<exists>us vs. zs = us @ vs \<and> list_all2 P xs us \<and> list_all2 P ys vs"
  by (auto simp: list_all2_append1)

lemma filePattern_fits_only:
  assumes "list_all2 atomMatches (filePattern dbName) s"
  shows "\<exists>d8 d6. s = dbName @ ''_'' @ d8 @ ''_'' @ d6 @ ''.dump'' \<and>
           length d8 = 8 \<and> list_all isDigit d8 \<and> length d6 = 6 \<and> list_all isDigit d6"
proof -
  from assms obtain n r1 where 1: "s = n @ r1" "list_all2 atomMatches (map ReChar dbName) n"
    "list_all2 atomMatches ([ReChar CHR ''_''] @ replicate 8 ReDigit @
        [ReChar CHR ''_''] @ replicate 6 ReDigit @ map ReChar ''.dump'') r1"
    unfolding filePattern_def using list_all2_append_split by blast
  from 1(3) obtain u r2 where 2: "r1 = u @ r2" "list_all2 atomMatches [ReChar CHR ''_''] u"
    "list_all2 atomMatches (replicate 8 ReDigit @
        [ReChar CHR ''_''] @ replicate 6 ReDigit @ map ReChar ''.dump'') r2"
    using list_all2_append_split by blast
  from 2(3) obtain d8 r3 where 3: "r2 = d8 @ r3" "list_all2 atomMatches (replicate 8 ReDigit) d8"
    "list_all2 atomMatches ([ReChar CHR ''_''] @ replicate 6 ReDigit @ map ReChar ''.dump'') r3"
    using list_all2_append_split by blast
  from 3(3) obtain v r4 where 4: "r3 = v @ r4" "list_all2 atomMatches [ReChar CHR ''_''] v"
    "list_all2 atomMatches (replicate 6 ReDigit @ map ReChar ''.dump'') r4"
    using list_all2_append_split by blast
  from 4(3) obtain d6 r5 where 5: "r4 = d6 @ r5" "list_all2 atomMatches (replicate 6 ReDigit) d6"
    "list_all2 atomMatches (map ReChar ''.dump'') r5"
    using list_all2_append_split by blast
  have n: "n = dbName" using 1(2) by (simp only: list_all2_ReChar)
  have u: "u = ''_''" using 2(2) by (auto simp: list_all2_Cons1)
  have v: "v = ''_''" using 4(2) by (auto simp: list_all2_Cons1)
  have r5: "r5 = ''.dump''" using 5(3) by (simp only: list_all2_ReChar)
  have d8: "length d8 = 8" "list_all isDigit d8" using 3(2) by (simp_all only: list_all2_ReDigit)
  have d6: "length d6 = 6" "list_all isDigit d6" using 5(2) by (simp_all only: list_all2_ReDigit)
  have "s = dbName @ ''_'' @ d8 @ ''_'' @ d6 @ ''.dump''"
    unfolding 1(1) 2(1) 3(1) 4(1) 5(1) n u v r5 ..
  with d8 d6 show ?thesis by blast
qed

lemma find_unique:
  "k \<in> set xs \<Longrightarrow> P k \<Longrightarrow> (\<And>i. i \<in> set xs \<Longrightarrow> P i \<Longrightarrow> i = k) \<Longrightarrow> find P xs = Some k"
proof (induction xs)
  case Nil
  then show ?case by simp
next
  case (Cons x xs)
  show ?case
  proof (cases "P x")
    case True
    have "x \<in> set (x # xs)" by simp
    then have "x = k" using True by (rule Cons.prems(3))
    with True show ?thesis by simp
  next
    case False
    with Cons.prems(1,2) have mem: "k \<in> set xs" by auto
    have "find P xs = Some k"
    proof (rule Cons.IH [OF mem Cons.prems(2)])
      fix i assume "i \<in> set xs" "P i"
      then show "i = k" using Cons.prems(3) [of i] by simp
    qed
    with False show ?thesis by simp
  qed
qed

lemma drop_prefix_captures:
  assumes "length d8 = 8" "length d6 = 6"
  shows "take 8 (drop (length pre + length dbName + 1) (pre @ dbName @ ''_'' @ d8 @ ''_'' @ d6 @ ''.dump'')) = d8"
    and "take 6 (drop (length pre + length dbName + 10) (pre @ dbName @ ''_'' @ d8 @ ''_'' @ d6 @ ''.dump'')) = d6"
proof -
  have a: "pre @ dbName @ ''_'' @ d8 @ ''_'' @ d6 @ ''.dump''
             = (pre @ dbName @ ''_'') @ d8 @ (''_'' @ d6 @ ''.dump'')" by simp
  have la: "length (pre @ dbName @ ''_'') = length pre + length dbName + 1" by simp
  show "take 8 (drop (length pre + length dbName + 1) (pre @ dbName @ ''_'' @ d8 @ ''_'' @ d6 @ ''.dump'')) = d8"
    unfolding a la [symmetric] using assms(1) by (simp del: append_assoc)
  have b: "pre @ dbName @ ''_'' @ d8 @ ''_'' @ d6 @ ''.dump''
             = (pre @ dbName @ ''_'' @ d8 @ ''_'') @ d6 @ ''.dump''" by simp
  have lb: "length (pre @ dbName @ ''_'' @ d8 @ ''_'') = length pre + length dbName + 10"
    using assms(1) by simp
  show "take 6 (drop (length pre + length dbName + 10) (pre @ dbName @ ''_'' @ d8 @ ''_'' @ d6 @ ''.dump'')) = d6"
    unfolding b lb [symmetric] using assms(2) by (simp del: append_assoc)
qed

lemma matchFilePattern_suffix:
  assumes "length d8 = 8" "list_all isDigit d8" "length d6 = 6" "list_all isDigit d6"
  shows "matchFilePattern dbName (pre @ dbName @ ''_'' @ d8 @ ''_'' @ d6 @ ''.dump'')
           = Some (d8, d6)"
proof -
  define s where "s = dbName @ ''_'' @ d8 @ ''_'' @ d6 @ ''.dump''"
  define f where "f = pre @ s"
  define P where "P = (\<lambda>i. list_all2 atomMatches (filePattern dbName) (drop i f))"
  have len: "length s = length dbName + 21" using assms by (simp add: s_def)
  have fits: "P (length pre)"
    using filePattern_fits [OF assms, of dbName] by (simp add: P_def f_def s_def)
  have only: "i = length pre" if "P i" "i \<le> length f" for i
  proof -
    have "length (drop i f) = length dbName + 21"
      using that(1) filePattern_length [of dbName] list_all2_lengthD
      unfolding P_def by fastforce
    then show ?thesis using len that(2) by (simp add: f_def)
  qed
  have mem: "length pre \<in> set [0 ..< Suc (length f)]" by (simp add: f_def)
  have "find P [0 ..< Suc (length f)] = Some (length pre)"
  proof (rule find_unique)
    show "length pre \<in> set [0 ..< Suc (length f)]" by (rule mem)
    show "P (length pre)" by (rule fits)
    fix i assume "i \<in> set [0 ..< Suc (length f)]" "P i"
    then show "i = length pre" using only [of i] by auto
  qed
  then have "matchFilePattern dbName f =
      Some (take 8 (drop (length pre + length dbName + 1) f),
            take 6 (drop (length pre + length dbName + 10) f))"
    by (simp add: matchFilePattern_def P_def)
  then show ?thesis
    unfolding f_def s_def
    using drop_prefix_captures [OF assms(1) assms(3), of pre dbName] by simp
qed

lemma matchFilePattern_Some:
  assumes "matchFilePattern dbName f = Some (a, b)"
  shows "\<exists>pre. f = pre @ dbName @ ''_'' @ a @ ''_'' @ b @ ''.dump'' \<and>
           length a = 8 \<and> list_all isDigit a \<and> length b = 6 \<and> list_all isDigit b"
proof -
  from assms obtain i where i:
    "find (\<lambda>i. list_all2 atomMatches (filePattern dbName) (drop i f)) [0 ..< Suc (length f)] = Some i"
    by (auto simp: matchFilePattern_def split: option.splits)
  then have "list_all2 atomMatches (filePattern dbName) (drop i f)"
    by (auto simp: find_Some_iff)
  then obtain d8 d6 where d: "drop i f = dbName @ ''_'' @ d8 @ ''_'' @ d6 @ ''.dump''"
    "length d8 = 8" "list_all isDigit d8" "length d6 = 6" "list_all isDigit d6"
    using filePattern_fits_only by blast
  have f: "f = take i f @ dbName @ ''_'' @ d8 @ ''_'' @ d6 @ ''.dump''"
    using d(1) append_take_drop_id [of i f] by simp
  have "matchFilePattern dbName f = Some (d8, d6)"
    using matchFilePattern_suffix [OF d(2-5), of dbName "take i f"] f by simp
  with assms have "a = d8" "b = d6" by simp_all
  with f d show ?thesis by blast
qed

section \<open>The key made by createS3Path, read back by deleteOldBackups\<close>

lemma isDigit_not_slash: "isDigit c \<Longrightarrow> c \<noteq> CHR ''/''"
  by (auto simp: isDigit_def)

lemma digits_no_slash: "list_all isDigit s \<Longrightarrow> CHR ''/'' \<notin> set s"
  using isDigit_not_slash by (auto simp: list_all_iff)

text \<open>The path is empty or ends with a separator, and the file name follows.\<close>

lemma createS3Path_shape:
  "\<exists>dir. (dir = [] \<or> (\<exists>q. dir = q @ ''/'')) \<and>
     createS3Path config rt now dbName folder'
       = dir @ dbName @ ''_'' @ formatTimestamp rt now @ ''.dump''"
proof -
  define a where "a = (case prefix config of None \<Rightarrow> [] | Some p \<Rightarrow> if p \<noteq> [] then p @ ''/'' else [])"
  define b where "b = (case folder' of None \<Rightarrow> [] | Some f \<Rightarrow> if f \<noteq> [] then f @ ''/'' else [])"
  have e: "createS3Path config rt now dbName folder'
             = (a @ b) @ dbName @ ''_'' @ formatTimestamp rt now @ ''.dump''"
    by (simp add: createS3Path_def a_def b_def Let_def split: option.splits)
  have a: "a = [] \<or> (\<exists>q. a = q @ ''/'')" by (auto simp: a_def split: option.splits)
  have b: "b = [] \<or> (\<exists>q. b = q @ ''/'')" by (auto simp: b_def split: option.splits)
  have "a @ b = [] \<or> (\<exists>q. a @ b = q @ ''/'')"
  proof (cases "b = []")
    case True
    with a show ?thesis by simp
  next
    case False
    with b obtain q where "b = q @ ''/''" by blast
    then have "a @ b = (a @ q) @ ''/''" by simp
    then show ?thesis by blast
  qed
  with e show ?thesis by blast
qed

text \<open>The six fields printed by format, for a local year of four digits.\<close>

lemma formatTimestamp_fields:
  assumes "1 \<le> yearFromTime (localTime rt t)" "yearFromTime (localTime rt t) \<le> 9999"
  defines "lt \<equiv> localTime rt t"
  defines "Y \<equiv> addLeadingZeros (yearFromTime lt) 4"
    and "Mo \<equiv> addLeadingZeros (monthFromTime lt + 1) 2"
    and "D \<equiv> addLeadingZeros (dateFromTime lt) 2"
    and "H \<equiv> addLeadingZeros (hourFromTime lt) 2"
    and "Mi \<equiv> addLeadingZeros (minFromTime lt) 2"
    and "S \<equiv> addLeadingZeros (secFromTime lt) 2"
  shows "formatTimestamp rt t = (Y @ Mo @ D) @ ''_'' @ (H @ Mi @ S)"
    and "length Y = 4 \<and> length Mo = 2 \<and> length D = 2 \<and> length H = 2 \<and> length Mi = 2 \<and> length S = 2"
    and "list_all isDigit (Y @ Mo @ D) \<and> list_all isDigit (H @ Mi @ S)"
    and "int (readNat Y) = yearFromTime lt \<and> int (readNat Mo) = monthFromTime lt + 1 \<and>
         int (readNat D) = dateFromTime lt \<and> int (readNat H) = hourFromTime lt \<and>
         int (readNat Mi) = minFromTime lt \<and> int (readNat S) = secFromTime lt"
proof -
  have y: "0 \<le> yearFromTime lt" "yearFromTime lt < 10 ^ 4"
    using assms(1,2) by (simp_all add: lt_def)
  have mo: "0 \<le> monthFromTime lt + 1" "monthFromTime lt + 1 < 10 ^ 2"
    using monthFromTime_range [of lt] by simp_all
  have dd: "1 \<le> dateFromTime lt" "dateFromTime lt \<le> 31"
    using dateFromTime_range [of lt] by simp_all
  then have d: "0 \<le> dateFromTime lt" "dateFromTime lt < 10 ^ 2" by simp_all
  have h: "0 \<le> hourFromTime lt" "hourFromTime lt < 10 ^ 2"
    using hourFromTime_range [of lt] by simp_all
  have mi: "0 \<le> minFromTime lt" "minFromTime lt < 10 ^ 2"
    using minFromTime_range [of lt] by simp_all
  have s: "0 \<le> secFromTime lt" "secFromTime lt < 10 ^ 2"
    using secFromTime_range [of lt] by simp_all
  show "formatTimestamp rt t = (Y @ Mo @ D) @ ''_'' @ (H @ Mi @ S)"
    using assms(1) by (simp add: formatTimestamp_def Let_def lt_def Y_def Mo_def D_def H_def Mi_def S_def)
  show "length Y = 4 \<and> length Mo = 2 \<and> length D = 2 \<and> length H = 2 \<and> length Mi = 2 \<and> length S = 2"
    unfolding Y_def Mo_def D_def H_def Mi_def S_def
    using addLeadingZeros_nonneg(1) [OF y] addLeadingZeros_nonneg(1) [OF mo]
      addLeadingZeros_nonneg(1) [OF d] addLeadingZeros_nonneg(1) [OF h]
      addLeadingZeros_nonneg(1) [OF mi] addLeadingZeros_nonneg(1) [OF s] by simp
  show "list_all isDigit (Y @ Mo @ D) \<and> list_all isDigit (H @ Mi @ S)"
    unfolding Y_def Mo_def D_def H_def Mi_def S_def
    using addLeadingZeros_nonneg(2) [OF y] addLeadingZeros_nonneg(2) [OF mo]
      addLeadingZeros_nonneg(2) [OF d] addLeadingZeros_nonneg(2) [OF h]
      addLeadingZeros_nonneg(2) [OF mi] addLeadingZeros_nonneg(2) [OF s] by simp
  show "int (readNat Y) = yearFromTime lt \<and> int (readNat Mo) = monthFromTime lt + 1 \<and>
         int (readNat D) = dateFromTime lt \<and> int (readNat H) = hourFromTime lt \<and>
         int (readNat Mi) = minFromTime lt \<and> int (readNat S) = secFromTime lt"
    unfolding Y_def Mo_def D_def H_def Mi_def S_def
    using addLeadingZeros_nonneg(3) [OF y] addLeadingZeros_nonneg(3) [OF mo]
      addLeadingZeros_nonneg(3) [OF d] addLeadingZeros_nonneg(3) [OF h]
      addLeadingZeros_nonneg(3) [OF mi] addLeadingZeros_nonneg(3) [OF s]
      y(1) mo(1) d(1) h(1) mi(1) s(1) by simp
qed

text \<open>
  The Date built from the six printed fields of a time is that time cut to the second.
  For the key made by createS3Path it is the local time, read as if it were UTC.
\<close>

lemma newDateUtc_fields:
  assumes "int (readNat Y) = yearFromTime lt" "int (readNat Mo) = monthFromTime lt + 1"
    and "int (readNat D) = dateFromTime lt" "int (readNat H) = hourFromTime lt"
    and "int (readNat Mi) = minFromTime lt" "int (readNat S) = secFromTime lt"
  shows "newDateUtc Y Mo D H Mi S = TimeValue (lt - lt mod 1000)"
proof -
  have r: "1 \<le> monthFromTime lt + 1" "monthFromTime lt + 1 \<le> 12"
      "1 \<le> dateFromTime lt"
      "dateFromTime lt \<le> 31"
      "hourFromTime lt \<le> 23" "minFromTime lt \<le> 59" "secFromTime lt \<le> 59"
    using monthFromTime_range [of lt] dateFromTime_range [of lt] hourFromTime_range [of lt]
      minFromTime_range [of lt] secFromTime_range [of lt] by simp_all
  have dy: "makeDay (yearFromTime lt) (monthFromTime lt) (dateFromTime lt) = day lt"
    using makeDay_fields [of lt 0] by simp
  have "makeDate (day lt) (timeWithinDay lt - lt mod 1000) = lt - lt mod 1000"
    using makeDate_day [of lt] by (simp add: makeDate_def)
  then have v: "makeDate (makeDay (yearFromTime lt) (monthFromTime lt) (dateFromTime lt))
           (makeTime (hourFromTime lt) (minFromTime lt) (secFromTime lt) 0) = lt - lt mod 1000"
    by (simp only: dy makeTime_seconds)
  show ?thesis
    unfolding newDateUtc_def Let_def assms using r v by simp
qed

text \<open>
  A day past the end of the month rolls over: 30 February 2023 is read as 2 March 2023.
  A month past the end of the year makes the date invalid.
\<close>

lemma newDateUtc_rolls_over:
  "newDateUtc ''2023'' ''02'' ''30'' ''00'' ''00'' ''00'' = TimeValue 1677715200000"
  by code_simp

lemma newDateUtc_invalid:
  "newDateUtc ''2023'' ''13'' ''01'' ''00'' ''00'' ''00'' = InvalidDate"
  by code_simp

text \<open>The key made by createS3Path reads back as the local time, cut to the second.\<close>

lemma createS3Path_backupDate:
  assumes "CHR ''/'' \<notin> set dbName"
    and "1 \<le> yearFromTime (localTime rt t)" "yearFromTime (localTime rt t) \<le> 9999"
    and "literalName dbName"
  shows "backupDateOfItem rt dbName \<lparr> Key = Some (createS3Path config rt t dbName folder') \<rparr>
           = Inr (Some (createS3Path config rt t dbName folder',
                        TimeValue (localTime rt t - localTime rt t mod 1000)))"
proof -
  define lt where "lt = localTime rt t"
  define Y where "Y = addLeadingZeros (yearFromTime lt) 4"
  define Mo where "Mo = addLeadingZeros (monthFromTime lt + 1) 2"
  define D where "D = addLeadingZeros (dateFromTime lt) 2"
  define H where "H = addLeadingZeros (hourFromTime lt) 2"
  define Mi where "Mi = addLeadingZeros (minFromTime lt) 2"
  define S where "S = addLeadingZeros (secFromTime lt) 2"
  note f = formatTimestamp_fields [OF assms(2,3), folded lt_def, folded Y_def Mo_def D_def H_def Mi_def S_def]
  define key where "key = createS3Path config rt t dbName folder'"
  define fileName where "fileName = dbName @ ''_'' @ (Y @ Mo @ D) @ ''_'' @ (H @ Mi @ S) @ ''.dump''"
  obtain dir where dir: "dir = [] \<or> (\<exists>q. dir = q @ ''/'')" "key = dir @ fileName"
    using createS3Path_shape [of config rt t dbName folder'] f(1)
    unfolding key_def fileName_def by auto
  have ns: "CHR ''/'' \<notin> set fileName"
    using assms(1) f(3) digits_no_slash [of "Y @ Mo @ D"] digits_no_slash [of "H @ Mi @ S"]
    by (simp add: fileName_def)
  have fne: "fileName \<noteq> []" by (simp add: fileName_def)
  have kne: "key \<noteq> []" using dir(2) fne by simp
  have lst: "last (splitOn CHR ''/'' key) = fileName"
  proof (cases "dir = []")
    case True
    with dir(2) ns show ?thesis by (simp add: last_splitOn_no_sep)
  next
    case False
    with dir(1) obtain q where "dir = q @ ''/''" by blast
    with dir(2) have "key = q @ CHR ''/'' # fileName" by simp
    with ns show ?thesis using last_splitOn_sep [of "CHR ''/''" fileName q] by simp
  qed
  have l8: "length (Y @ Mo @ D) = 8" and l6: "length (H @ Mi @ S) = 6" using f(2) by simp_all
  have m: "matchFilePattern dbName fileName = Some (Y @ Mo @ D, H @ Mi @ S)"
    using matchFilePattern_suffix [OF l8 conjunct1 [OF f(3)] l6 conjunct2 [OF f(3)], of dbName "[]"]
    by (simp add: fileName_def)
  have sub: "substring 0 4 (Y @ Mo @ D) = Y" "substring 4 6 (Y @ Mo @ D) = Mo"
      "substring 6 8 (Y @ Mo @ D) = D" "substring 0 2 (H @ Mi @ S) = H"
      "substring 2 4 (H @ Mi @ S) = Mi" "substring 4 6 (H @ Mi @ S) = S"
    using f(2) by (simp_all add: substring_def)
  have nd: "newDateUtc Y Mo D H Mi S = TimeValue (lt - lt mod 1000)"
    using f(4) by (intro newDateUtc_fields) simp_all
  have "fileNameDate rt dbName fileName = Inr (Some (newDateUtc Y Mo D H Mi S))"
    using assms(4) by (simp add: fileNameDate_def m sub)
  then have "backupDateOfItem rt dbName \<lparr> Key = Some key \<rparr>
               = Inr (Some (key, newDateUtc Y Mo D H Mi S))"
    using kne fne by (simp add: backupDateOfItem_def lst)
  then show ?thesis by (simp only: nd key_def lt_def)
qed

text \<open>For a name that stands for itself the loop body throws nothing of its own.\<close>

lemma backupDateOfItem_literal:
  "literalName dbName \<Longrightarrow> backupDateOfItem rt dbName item = Inr (datedItem rt dbName item)"
  by (auto simp: datedItem_def backupDateOfItem_def fileNameDate_def Let_def
      split: option.splits)

text \<open>
  For a name with syntax characters, an exception of the runtime (for the name \<open>db(\<close>,
  the SyntaxError of \<open>new RegExp\<close>) ends the iteration and is thrown.
\<close>

lemma processItem_regExp_error:
  assumes "\<not> literalName dbName" "Key item = Some key" "key \<noteq> []"
    and "last (splitOn CHR ''/'' key) \<noteq> []"
    and "regExpDate rt dbName (last (splitOn CHR ''/'' key)) = Inl e"
  shows "processItem config client rt dbName cutoffDate item acc = Inl e"
  using assms by (simp add: processItem_def backupDateOfItem_def fileNameDate_def)

lemma expiredKeys_Nil: "expiredKeys rt dbName cutoffDate [] = []"
  by (simp add: expiredKeys_def map_filter_simps)

lemma expiredKeys_Cons:
  "expiredKeys rt dbName cutoffDate (item # items) =
     (case datedItem rt dbName item of
        None \<Rightarrow> expiredKeys rt dbName cutoffDate items
      | Some kd \<Rightarrow> if dateLess (snd kd) cutoffDate
                  then fst kd # expiredKeys rt dbName cutoffDate items
                  else expiredKeys rt dbName cutoffDate items)"
  by (simp add: expiredKeys_def map_filter_simps split: option.splits)

lemma expiredKeys_append:
  "expiredKeys rt dbName cutoffDate (xs @ ys) =
     expiredKeys rt dbName cutoffDate xs @ expiredKeys rt dbName cutoffDate ys"
  by (induction xs) (simp_all add: expiredKeys_Nil expiredKeys_Cons split: option.splits)

lemma processContents_expired:
  assumes "\<forall>key \<in> set (expiredKeys rt dbName cutoffDate items).
             deleteObject client (bucket config) key = Inr ()"
    and "literalName dbName"
  shows "processContents config client rt dbName cutoffDate items (n, ds) =
           Inr (n + length (expiredKeys rt dbName cutoffDate items),
                ds @ expiredKeys rt dbName cutoffDate items)"
  using assms(1)
proof (induction items arbitrary: n ds)
  case Nil
  show ?case by (simp add: expiredKeys_Nil)
next
  case (Cons item items)
  note b = backupDateOfItem_literal [OF assms(2), of rt item]
  show ?case
  proof (cases "datedItem rt dbName item")
    case None
    with Cons show ?thesis by (simp add: expiredKeys_Cons processItem_def b)
  next
    case (Some kd)
    obtain key backupDate where kd: "kd = (key, backupDate)" by (cases kd)
    show ?thesis
    proof (cases "dateLess backupDate cutoffDate")
      case True
      have e: "expiredKeys rt dbName cutoffDate (item # items)
                 = key # expiredKeys rt dbName cutoffDate items"
        using Some kd True by (simp add: expiredKeys_Cons)
      have d: "deleteObject client (bucket config) key = Inr ()"
        using Cons.prems e by simp
      have r: "\<forall>key \<in> set (expiredKeys rt dbName cutoffDate items).
                 deleteObject client (bucket config) key = Inr ()"
        using Cons.prems e by simp
      show ?thesis
        using Some kd True d Cons.IH [OF r, of "Suc n" "ds @ [key]"]
        by (simp add: e processItem_def b)
    next
      case False
      have e: "expiredKeys rt dbName cutoffDate (item # items)
                 = expiredKeys rt dbName cutoffDate items"
        using Some kd False by (simp add: expiredKeys_Cons)
      show ?thesis
        using Some kd False Cons.IH [of n ds] Cons.prems
        by (simp add: e processItem_def b)
    qed
  qed
qed

lemma listLoop_pages:
  assumes "servesPages client (bucket config) pfx token pages"
    and "\<forall>key \<in> set (expiredKeys rt dbName cutoffDate (allItems pages)).
           deleteObject client (bucket config) key = Inr ()"
    and "literalName dbName"
  shows "listLoop config client rt dbName pfx cutoffDate token (n, ds) =
           Some (Inr (n + length (expiredKeys rt dbName cutoffDate (allItems pages)),
                      ds @ expiredKeys rt dbName cutoffDate (allItems pages)))"
  using assms(1,2)
proof (induction client "bucket config" pfx token pages arbitrary: n ds
       rule: servesPages.induct)
  case (1 client pfx token)
  then show ?case by simp
next
  case (2 client pfx token page)
  have a: "allItems [page] = pageItems page" by (simp add: allItems_def)
  have d: "\<forall>key \<in> set (expiredKeys rt dbName cutoffDate (pageItems page)).
             deleteObject client (bucket config) key = Inr ()"
    using "2.prems"(2) by (simp add: a)
  have c: "(case Contents page of None \<Rightarrow> Inr (n, ds)
            | Some items \<Rightarrow> processContents config client rt dbName cutoffDate items (n, ds))
           = Inr (n + length (expiredKeys rt dbName cutoffDate (pageItems page)),
                  ds @ expiredKeys rt dbName cutoffDate (pageItems page))"
    using processContents_expired [OF _ assms(3), of rt cutoffDate "pageItems page" client config n ds] d
    by (auto simp: pageItems_def expiredKeys_Nil split: option.splits)
  show ?case
    using "2.prems"(1)
    by (subst listLoop.simps) (simp add: c a)
next
  case (3 client pfx token page nxt pages)
  have a: "allItems (page # nxt # pages) = pageItems page @ allItems (nxt # pages)"
    by (simp add: allItems_def)
  have d: "\<forall>key \<in> set (expiredKeys rt dbName cutoffDate (pageItems page)).
             deleteObject client (bucket config) key = Inr ()"
    using "3.prems"(2) by (simp add: a expiredKeys_append)
  have d': "\<forall>key \<in> set (expiredKeys rt dbName cutoffDate (allItems (nxt # pages))).
             deleteObject client (bucket config) key = Inr ()"
    using "3.prems"(2) by (simp add: a expiredKeys_append)
  have c: "(case Contents page of None \<Rightarrow> Inr (n, ds)
            | Some items \<Rightarrow> processContents config client rt dbName cutoffDate items (n, ds))
           = Inr (n + length (expiredKeys rt dbName cutoffDate (pageItems page)),
                  ds @ expiredKeys rt dbName cutoffDate (pageItems page))"
    using processContents_expired [OF _ assms(3), of rt cutoffDate "pageItems page" client config n ds] d
    by (auto simp: pageItems_def expiredKeys_Nil split: option.splits)
  have s: "servesPages client (bucket config) pfx (NextContinuationToken page) (nxt # pages)"
      and l: "listObjectsV2 client (bucket config) pfx token = Inr page"
      and t: "truthy (NextContinuationToken page)"
    using "3.prems"(1) by simp_all
  have ih: "listLoop config client rt dbName pfx cutoffDate (NextContinuationToken page)
              (n + length (expiredKeys rt dbName cutoffDate (pageItems page)),
               ds @ expiredKeys rt dbName cutoffDate (pageItems page))
            = Some (Inr (n + length (expiredKeys rt dbName cutoffDate (pageItems page))
                           + length (expiredKeys rt dbName cutoffDate (allItems (nxt # pages))),
                         (ds @ expiredKeys rt dbName cutoffDate (pageItems page))
                           @ expiredKeys rt dbName cutoffDate (allItems (nxt # pages))))"
    by (rule "3.hyps" [OF s d'])
  show ?case
    using l t
    by (subst listLoop.simps) (simp add: c ih a expiredKeys_append)
qed

section \<open>Claims about parseConnectionString\<close>

lemma parseConnectionString_no_at:
  "CHR ''@'' \<notin> set (removeScheme s) \<Longrightarrow> parseConnectionString s = Inl TypeError"
  using nthOpt_1_splitOn [of "CHR ''@''" "removeScheme s"]
  by (simp add: parseConnectionString_def Let_def)

lemma parseConnectionString_at:
  "CHR ''@'' \<in> set (removeScheme s) \<Longrightarrow> \<exists>cd. parseConnectionString s = Inr cd"
  using nthOpt_1_splitOn [of "CHR ''@''" "removeScheme s"]
  by (auto simp: parseConnectionString_def Let_def split: option.splits)

text \<open>
  C8 (counterexample). The claim says that parsing fails with a ConnectionStringError
  whenever the \<open>user:pass@host\<close> segments are missing. A connection string without the
  \<open>:pass\<close> segment is parsed without any failure: the password comes back \<open>undefined\<close>.
\<close>

theorem parseConnectionString_missing_password_returns:
  "parseConnectionString ''postgres://user@host:5432/db'' =
     Inr \<lparr> username = ''user'', password = None, host = ''host'',
           port = Number 5432, database = ''db'' \<rparr>"
  by code_simp

text \<open>
  C8 (amended). parseConnectionString fails exactly when the string, after the removal of
  a leading \<open>postgres://\<close>, contains no \<open>@\<close>; the failure is the TypeError of reading
  \<open>split\<close> on \<open>undefined\<close> (the program defines no ConnectionStringError). With an \<open>@\<close>
  present it always returns, whatever else is missing.
\<close>

theorem parseConnectionString_fails_iff_no_at:
  "(parseConnectionString s = Inl TypeError) = (CHR ''@'' \<notin> set (removeScheme s)) \<and>
   isl (parseConnectionString s) = (CHR ''@'' \<notin> set (removeScheme s))"
proof (cases "CHR ''@'' \<in> set (removeScheme s)")
  case True
  then obtain cd where "parseConnectionString s = Inr cd"
    using parseConnectionString_at by blast
  with True show ?thesis by simp
next
  case False
  then have "parseConnectionString s = Inl TypeError"
    by (rule parseConnectionString_no_at)
  with False show ?thesis by simp
qed

text \<open>
  C10. When the part before the first \<open>@\<close> is \<open>u:p:q\<close> (\<open>u\<close> and \<open>p\<close> without a colon),
  the password returned is \<open>p\<close>, the text between the first and the second colon, and the
  whole result is the one of the connection string with \<open>:q\<close> removed: the rest of the
  password reaches no field of the returned ConnectionDetails.
\<close>

theorem parseConnectionString_password_truncated:
  assumes "CHR '':'' \<notin> set u" "CHR ''@'' \<notin> set u"
    and "CHR '':'' \<notin> set p" "CHR ''@'' \<notin> set p"
    and "CHR ''@'' \<notin> set q"
  shows "parseConnectionString (''postgres://'' @ u @ '':'' @ p @ '':'' @ q @ ''@'' @ rest)
           = parseConnectionString (''postgres://'' @ u @ '':'' @ p @ ''@'' @ rest)
         \<and> (\<exists>cd. parseConnectionString
                    (''postgres://'' @ u @ '':'' @ p @ '':'' @ q @ ''@'' @ rest) = Inr cd
                \<and> username cd = u \<and> password cd = Some p)"
proof -
  have a: "CHR ''@'' \<notin> set (u @ '':'' @ p @ '':'' @ q)" using assms by auto
  have b: "CHR ''@'' \<notin> set (u @ '':'' @ p)" using assms by auto
  have s1: "splitOn CHR ''@'' ((u @ '':'' @ p @ '':'' @ q) @ CHR ''@'' # rest)
              = (u @ '':'' @ p @ '':'' @ q) # splitOn CHR ''@'' rest"
    using a by (rule splitOn_first_sep)
  have s2: "splitOn CHR ''@'' ((u @ '':'' @ p) @ CHR ''@'' # rest)
              = (u @ '':'' @ p) # splitOn CHR ''@'' rest"
    using b by (rule splitOn_first_sep)
  have u1: "splitOn CHR '':'' (u @ CHR '':'' # p @ CHR '':'' # q) = u # p # splitOn CHR '':'' q"
    using assms by (simp add: splitOn_first_sep)
  have u2: "splitOn CHR '':'' (u @ CHR '':'' # p) = [u, p]"
    using assms by (simp add: splitOn_first_sep splitOn_no_sep)
  show ?thesis
    using s1 s2 u1 u2 splitOn_nonempty [of "CHR ''@''" rest]
    by (cases "splitOn CHR ''@'' rest")
       (simp_all add: parseConnectionString_def removeScheme_def Let_def split: option.splits)
qed

theorem parseConnectionString_password_truncated_witness:
  "parseConnectionString ''postgres://user:pa:ss@host:5432/db''
     = parseConnectionString ''postgres://user:pa@host:5432/db''
   \<and> (\<exists>cd. parseConnectionString ''postgres://user:pa:ss@host:5432/db'' = Inr cd
          \<and> username cd = ''user'' \<and> password cd = Some ''pa'')"
  using parseConnectionString_password_truncated
    [of "''user''" "''pa''" "''ss''" "''host:5432/db''"]
  by force

section \<open>Claims about retention\<close>

lemma datedItem_key:
  "datedItem rt dbName item = Some (k, d) \<Longrightarrow> item = \<lparr> Key = Some k \<rparr>"
  by (cases item)
     (auto simp: datedItem_def backupDateOfItem_def Let_def
       split: option.splits if_splits sum.splits)

lemma expiredKeys_mem:
  "key \<in> set (expiredKeys rt dbName cutoffDate items) \<longleftrightarrow>
     (\<exists>d. \<lparr> Key = Some key \<rparr> \<in> set items \<and>
          datedItem rt dbName \<lparr> Key = Some key \<rparr> = Some (key, d) \<and>
          dateLess d cutoffDate)"
proof (induction items)
  case Nil
  show ?case by (simp add: expiredKeys_Nil)
next
  case (Cons item items)
  show ?case
  proof (cases "datedItem rt dbName item")
    case None
    then have "item \<noteq> \<lparr> Key = Some key \<rparr> \<or> datedItem rt dbName \<lparr> Key = Some key \<rparr> = None"
      by auto
    with None Cons show ?thesis by (auto simp: expiredKeys_Cons)
  next
    case (Some kd)
    obtain k d where kd: "kd = (k, d)" by (cases kd)
    have item: "item = \<lparr> Key = Some k \<rparr>" using Some kd datedItem_key by blast
    show ?thesis
      using Some kd item Cons by (auto simp: expiredKeys_Cons)
  qed
qed



lemma expiredKeys_item:
  assumes "item \<in> set items"
    and "backupDateOfItem rt dbName item = Inr (Some (key, TimeValue b))"
  shows "key \<in> set (expiredKeys rt dbName (TimeValue c) items) \<longleftrightarrow> b < c"
proof -
  have d: "datedItem rt dbName item = Some (key, TimeValue b)"
    using assms(2) by (simp add: datedItem_def)
  have item: "item = \<lparr> Key = Some key \<rparr>" using d by (rule datedItem_key)
  show ?thesis
    using assms(1) d unfolding expiredKeys_mem item by auto
qed

text \<open>
  C4 (counterexample). The claim says that an object timestamped exactly 30 days before
  \<open>now\<close> is retained. In a process in the time zone America/New_York, at
  2024-03-20T12:00:00Z (1710936000000) with 30 days of retention, the listed object whose
  name reads as 2024-02-19T12:00:00Z, 30 days of 24 hours before, is deleted and counted.
  Between the two dates the clocks went forward: subDays keeps the local time of day,
  08:00, and the cutoff is 2024-02-19T13:00:00Z, one hour after \<open>now\<close> minus 30 days.
\<close>

theorem deleteOldBackups_deletes_backup_of_exactly_30_days:
  "deleteOldBackups
     \<lparr> bucket = ''b'', prefix = None, endpointUrl = None, region = None,
       accessKeyId = ''id'', secretAccessKey = ''secret'' \<rparr>
     \<lparr> listObjectsV2 = (\<lambda>b p tok. Inr
          \<lparr> Contents = Some [\<lparr> Key = Some ''db_20240219_120000.dump'' \<rparr>],
            NextContinuationToken = None \<rparr>),
       deleteObject = (\<lambda>b k. Inr ()),
       upload = (\<lambda>b k s. Inr None) \<rparr>
     newYorkRuntime 1710936000000 ''db'' [] 30
   = Some (Inr (1, [''db_20240219_120000.dump''])) \<and>
   backupDateOfItem newYorkRuntime ''db'' \<lparr> Key = Some ''db_20240219_120000.dump'' \<rparr>
     = Inr (Some (''db_20240219_120000.dump'', TimeValue (1710936000000 - 30 * msPerDay))) \<and>
   subDays newYorkRuntime 1710936000000 30 = 1710936000000 - 30 * msPerDay + msPerHour"
proof (intro conjI)
  let ?page = "\<lparr> Contents = Some [\<lparr> Key = Some ''db_20240219_120000.dump'' \<rparr>],
                 NextContinuationToken = None \<rparr>"
  let ?cfg = "\<lparr> bucket = ''b'', prefix = None, endpointUrl = None, region = None,
       accessKeyId = ''id'', secretAccessKey = ''secret'' \<rparr>"
  let ?cl = "\<lparr> listObjectsV2 = (\<lambda>b p tok. Inr ?page),
       deleteObject = (\<lambda>b k. Inr ()),
       upload = (\<lambda>b k s. Inr None) \<rparr> :: s3Client"
  let ?cutoff = "TimeValue (subDays newYorkRuntime 1710936000000 30)"
  have s: "servesPages ?cl (bucket ?cfg) (createPrefix ?cfg []) None [?page]"
    by simp
  have e: "expiredKeys newYorkRuntime ''db'' ?cutoff (allItems [?page])
             = [''db_20240219_120000.dump'']"
    by code_simp
  have d: "\<forall>key \<in> set (expiredKeys newYorkRuntime ''db'' ?cutoff (allItems [?page])).
             deleteObject ?cl (bucket ?cfg) key = Inr ()"
    by simp
  have l: "literalName ''db''"
    by (simp add: literalName_def regexSyntaxChar_def)
  have "listLoop ?cfg ?cl newYorkRuntime ''db'' (createPrefix ?cfg []) ?cutoff None (0, [])
          = Some (Inr (0 + length (expiredKeys newYorkRuntime ''db'' ?cutoff (allItems [?page])),
                       [] @ expiredKeys newYorkRuntime ''db'' ?cutoff (allItems [?page])))"
    using s d l by (rule listLoop_pages)
  then show "deleteOldBackups ?cfg ?cl newYorkRuntime 1710936000000 ''db'' [] 30
               = Some (Inr (1, [''db_20240219_120000.dump'']))"
    unfolding e by (simp add: deleteOldBackups_def)
  show "backupDateOfItem newYorkRuntime ''db'' \<lparr> Key = Some ''db_20240219_120000.dump'' \<rparr>
     = Inr (Some (''db_20240219_120000.dump'', TimeValue (1710936000000 - 30 * msPerDay)))"
    by code_simp
  show "subDays newYorkRuntime 1710936000000 30 = 1710936000000 - 30 * msPerDay + msPerHour"
    by code_simp
qed

text \<open>
  C4 (amended). An object is deleted when its date is strictly before the cutoff, and the
  cutoff is \<open>subDays(now, 30)\<close>: the local time of \<open>now\<close> moved back by 30 days of 24
  hours and read with the offset the time zone has at that local time. For a listed
  object whose file name matches and reads as the time \<open>b\<close>: the call returns the number
  of keys it deleted, and the key is among them exactly when \<open>b\<close> is before that cutoff.
  When the offset at that local time is the offset at \<open>now\<close> (as in a process in UTC),
  the cutoff is \<open>now\<close> minus 30 days of 24 hours: the key is deleted when \<open>b\<close> is 31
  days before \<open>now\<close>, and is not when \<open>b\<close> is 29 days or exactly 30 days before \<open>now\<close>.
  The listing is served in pages, the delete commands succeed, and the database name
  stands for itself in the pattern.
\<close>

theorem retention_boundary_is_strict:
  assumes "servesPages client (bucket config) (createPrefix config folder') None pages"
    and "\<forall>key \<in> set (expiredKeys rt dbName (TimeValue (subDays rt now 30)) (allItems pages)).
           deleteObject client (bucket config) key = Inr ()"
    and "item \<in> set (allItems pages)"
    and "backupDateOfItem rt dbName item = Inr (Some (key, TimeValue b))"
    and "literalName dbName"
  shows "\<exists>ds. deleteOldBackups config client rt now dbName folder' 30
                 = Some (Inr (length ds, ds)) \<and>
              (key \<in> set ds \<longleftrightarrow>
                 b < localTime rt now - 30 * msPerDay
                       - localTZA rt (localTime rt now - 30 * msPerDay) False) \<and>
              (localTZA rt (localTime rt now - 30 * msPerDay) False = localTZA rt now True \<longrightarrow>
                 (b = now - 31 * msPerDay \<longrightarrow> key \<in> set ds) \<and>
                 (b = now - 29 * msPerDay \<longrightarrow> key \<notin> set ds) \<and>
                 (b = now - 30 * msPerDay \<longrightarrow> key \<notin> set ds) \<and>
                 (key \<in> set ds \<longleftrightarrow> b < now - 30 * msPerDay))"
proof -
  define ds where "ds = expiredKeys rt dbName (TimeValue (subDays rt now 30)) (allItems pages)"
  define cutoff where "cutoff = localTime rt now - 30 * msPerDay
                         - localTZA rt (localTime rt now - 30 * msPerDay) False"
  have c: "subDays rt now 30 = cutoff"
    unfolding cutoff_def subDays_eq by simp
  have "listLoop config client rt dbName (createPrefix config folder')
          (TimeValue (subDays rt now 30)) None (0, []) = Some (Inr (0 + length ds, [] @ ds))"
    unfolding ds_def using assms(1,2,5) by (rule listLoop_pages)
  then have r: "deleteOldBackups config client rt now dbName folder' 30
                  = Some (Inr (length ds, ds))"
    by (simp add: deleteOldBackups_def)
  have m: "key \<in> set ds \<longleftrightarrow> b < cutoff"
    unfolding ds_def c using expiredKeys_item [OF assms(3,4)] .
  have p: "0 < msPerDay" by (simp add: msPerDay_def)
  have same: "(b = now - 31 * msPerDay \<longrightarrow> key \<in> set ds) \<and>
        (b = now - 29 * msPerDay \<longrightarrow> key \<notin> set ds) \<and>
        (b = now - 30 * msPerDay \<longrightarrow> key \<notin> set ds) \<and>
        (key \<in> set ds \<longleftrightarrow> b < now - 30 * msPerDay)"
    if "localTZA rt (localTime rt now - 30 * msPerDay) False = localTZA rt now True"
  proof -
    have "cutoff = now - 30 * msPerDay"
      unfolding cutoff_def using that by (simp add: localTime_def)
    then show ?thesis unfolding m using p by auto
  qed
  from r m same show ?thesis unfolding cutoff_def by blast
qed

text \<open>
  An instance: in a process in UTC, at 2024-03-01T12:00:00Z, the listing holds the
  backups of 31, 29 and 30 days before, at the same time of day. Only the first one is
  deleted.
\<close>

theorem retention_boundary_is_strict_witness:
  "\<exists>ds. deleteOldBackups
          \<lparr> bucket = ''b'', prefix = None, endpointUrl = None, region = None,
            accessKeyId = ''id'', secretAccessKey = ''secret'' \<rparr>
          \<lparr> listObjectsV2 = (\<lambda>b p tok. Inr
               \<lparr> Contents = Some [\<lparr> Key = Some ''db_20240130_120000.dump'' \<rparr>,
                                  \<lparr> Key = Some ''db_20240201_120000.dump'' \<rparr>,
                                  \<lparr> Key = Some ''db_20240131_120000.dump'' \<rparr>],
                 NextContinuationToken = None \<rparr>),
            deleteObject = (\<lambda>b k. Inr ()),
            upload = (\<lambda>b k s. Inr None) \<rparr>
          (fixedOffsetRuntime 0) 1709294400000 ''db'' [] 30 = Some (Inr (length ds, ds)) \<and>
        ''db_20240130_120000.dump'' \<in> set ds \<and>
        ''db_20240201_120000.dump'' \<notin> set ds \<and>
        ''db_20240131_120000.dump'' \<notin> set ds"
proof -
  let ?i31 = "\<lparr> Key = Some ''db_20240130_120000.dump'' \<rparr>"
  let ?i29 = "\<lparr> Key = Some ''db_20240201_120000.dump'' \<rparr>"
  let ?i30 = "\<lparr> Key = Some ''db_20240131_120000.dump'' \<rparr>"
  let ?page = "\<lparr> Contents = Some [?i31, ?i29, ?i30], NextContinuationToken = None \<rparr>"
  let ?cfg = "\<lparr> bucket = ''b'', prefix = None, endpointUrl = None, region = None,
       accessKeyId = ''id'', secretAccessKey = ''secret'' \<rparr>"
  let ?cl = "\<lparr> listObjectsV2 = (\<lambda>b p tok. Inr ?page),
       deleteObject = (\<lambda>b k. Inr ()),
       upload = (\<lambda>b k s. Inr None) \<rparr> :: s3Client"
  let ?now = "1709294400000 :: int"
  let ?rt = "fixedOffsetRuntime 0"
  have s: "servesPages ?cl (bucket ?cfg) (createPrefix ?cfg []) None [?page]"
    by simp
  have d: "\<forall>key \<in> set (expiredKeys ?rt ''db'' (TimeValue (subDays ?rt ?now 30)) (allItems [?page])).
           deleteObject ?cl (bucket ?cfg) key = Inr ()"
    by simp
  have m: "?i31 \<in> set (allItems [?page])" "?i29 \<in> set (allItems [?page])"
      "?i30 \<in> set (allItems [?page])"
    by (simp_all add: allItems_def pageItems_def)
  have b31: "backupDateOfItem ?rt ''db'' ?i31
               = Inr (Some (''db_20240130_120000.dump'', TimeValue (?now - 31 * msPerDay)))"
    by code_simp
  have b29: "backupDateOfItem ?rt ''db'' ?i29
               = Inr (Some (''db_20240201_120000.dump'', TimeValue (?now - 29 * msPerDay)))"
    by code_simp
  have b30: "backupDateOfItem ?rt ''db'' ?i30
               = Inr (Some (''db_20240131_120000.dump'', TimeValue (?now - 30 * msPerDay)))"
    by code_simp
  have l: "literalName ''db''"
    by (simp add: literalName_def regexSyntaxChar_def)
  have z: "localTZA ?rt (localTime ?rt ?now - 30 * msPerDay) False = localTZA ?rt ?now True"
    by (simp add: fixedOffsetRuntime_def)
  show ?thesis
    using retention_boundary_is_strict [OF s d m(1) b31 l]
      retention_boundary_is_strict [OF s d m(2) b29 l]
      retention_boundary_is_strict [OF s d m(3) b30 l] z
    by auto
qed

text \<open>The file name of every deleted key ends with the pattern.\<close>

lemma deleted_file_name_ends_with_pattern:
  assumes "key \<in> set (expiredKeys rt dbName cutoffDate items)"
    and "literalName dbName"
  shows "\<exists>pre d8 d6. last (splitOn CHR ''/'' key)
             = pre @ dbName @ ''_'' @ d8 @ ''_'' @ d6 @ ''.dump'' \<and>
           length d8 = 8 \<and> list_all isDigit d8 \<and> length d6 = 6 \<and> list_all isDigit d6"
proof -
  from assms(1) obtain d where "datedItem rt dbName \<lparr> Key = Some key \<rparr> = Some (key, d)"
    unfolding expiredKeys_mem by blast
  then obtain a b where "matchFilePattern dbName (last (splitOn CHR ''/'' key)) = Some (a, b)"
    using assms(2)
    by (auto simp: datedItem_def backupDateOfItem_def fileNameDate_def Let_def
        split: if_splits option.splits)
  then show ?thesis using matchFilePattern_Some by blast
qed

text \<open>
  The object \<open>other_20240101_000000.dump\<close>, in any directory, is never deleted or counted
  when retention is enforced for the database \<open>db\<close>.
\<close>

lemma other_database_example_not_deleted:
  assumes "dir = [] \<or> (\<exists>q. dir = q @ ''/'')"
  shows "dir @ ''other_20240101_000000.dump'' \<notin> set (expiredKeys rt ''db'' cutoffDate items)"
proof
  assume "dir @ ''other_20240101_000000.dump'' \<in> set (expiredKeys rt ''db'' cutoffDate items)"
  then obtain d where b: "datedItem rt ''db'' \<lparr> Key = Some (dir @ ''other_20240101_000000.dump'') \<rparr>
      = Some (dir @ ''other_20240101_000000.dump'', d)"
    unfolding expiredKeys_mem by blast
  have ns: "CHR ''/'' \<notin> set ''other_20240101_000000.dump''" by simp
  have l: "last (splitOn CHR ''/'' (dir @ ''other_20240101_000000.dump''))
             = ''other_20240101_000000.dump''"
  proof (cases "dir = []")
    case True
    then show ?thesis using last_splitOn_no_sep [OF ns] by simp
  next
    case False
    with assms obtain q where "dir = q @ ''/''" by blast
    then show ?thesis using last_splitOn_sep [OF ns, of q] by simp
  qed
  have n: "matchFilePattern ''db'' ''other_20240101_000000.dump'' = None" by code_simp
  have lit: "literalName ''db''"
    by (simp add: literalName_def regexSyntaxChar_def)
  have "datedItem rt ''db'' \<lparr> Key = Some (dir @ ''other_20240101_000000.dump'') \<rparr> = None"
    by (simp add: datedItem_def backupDateOfItem_def fileNameDate_def l n lit)
  with b show False by simp
qed

text \<open>
  C5 (the code at the failing input). Enforcing retention for the database \<open>db\<close> deletes
  and counts the backup \<open>mydb_20200101_000000.dump\<close> of another database, \<open>mydb\<close>: the
  pattern is anchored at the end of the file name only.
\<close>

theorem deleteOldBackups_deletes_backup_of_other_database:
  "deleteOldBackups
     \<lparr> bucket = ''b'', prefix = None, endpointUrl = None, region = None,
       accessKeyId = ''id'', secretAccessKey = ''secret'' \<rparr>
     \<lparr> listObjectsV2 = (\<lambda>b p tok. Inr
          \<lparr> Contents = Some [\<lparr> Key = Some ''mydb_20200101_000000.dump'' \<rparr>],
            NextContinuationToken = None \<rparr>),
       deleteObject = (\<lambda>b k. Inr ()),
       upload = (\<lambda>b k s. Inr None) \<rparr>
     (fixedOffsetRuntime 0) 1709294400000 ''db'' [] 30
   = Some (Inr (1, [''mydb_20200101_000000.dump'']))"
proof -
  let ?page = "\<lparr> Contents = Some [\<lparr> Key = Some ''mydb_20200101_000000.dump'' \<rparr>],
                 NextContinuationToken = None \<rparr>"
  let ?cfg = "\<lparr> bucket = ''b'', prefix = None, endpointUrl = None, region = None,
       accessKeyId = ''id'', secretAccessKey = ''secret'' \<rparr>"
  let ?cl = "\<lparr> listObjectsV2 = (\<lambda>b p tok. Inr ?page),
       deleteObject = (\<lambda>b k. Inr ()),
       upload = (\<lambda>b k s. Inr None) \<rparr> :: s3Client"
  let ?rt = "fixedOffsetRuntime 0"
  let ?cutoff = "TimeValue (subDays ?rt 1709294400000 30)"
  have s: "servesPages ?cl (bucket ?cfg) (createPrefix ?cfg []) None [?page]"
    by simp
  have e: "expiredKeys ?rt ''db'' ?cutoff (allItems [?page]) = [''mydb_20200101_000000.dump'']"
    by code_simp
  have d: "\<forall>key \<in> set (expiredKeys ?rt ''db'' ?cutoff (allItems [?page])).
             deleteObject ?cl (bucket ?cfg) key = Inr ()"
    by simp
  have l: "literalName ''db''"
    by (simp add: literalName_def regexSyntaxChar_def)
  have "listLoop ?cfg ?cl ?rt ''db'' (createPrefix ?cfg []) ?cutoff None (0, [])
          = Some (Inr (0 + length (expiredKeys ?rt ''db'' ?cutoff (allItems [?page])),
                       [] @ expiredKeys ?rt ''db'' ?cutoff (allItems [?page])))"
    using s d l by (rule listLoop_pages)
  then show ?thesis
    unfolding e by (simp add: deleteOldBackups_def)
qed

text \<open>
  Where the local time is UTC the key made at time \<open>t\<close> reads back as \<open>t\<close> cut to the
  second.
\<close>

lemma createS3Path_backupDate_utc:
  assumes "CHR ''/'' \<notin> set dbName"
    and "1 \<le> yearFromTime t" "yearFromTime t \<le> 9999"
    and "literalName dbName"
    and "localTZA rt t True = 0"
  shows "backupDateOfItem rt dbName \<lparr> Key = Some (createS3Path config rt t dbName folder') \<rparr>
           = Inr (Some (createS3Path config rt t dbName folder', TimeValue (t - t mod 1000)))"
  using createS3Path_backupDate [of dbName rt t config folder'] assms
  by (simp add: localTime_def)

text \<open>
  C1 (the code at the failing input). In a process whose time zone is UTC+01:00, the key
  made at 2024-01-01T00:00:00Z carries the local wall-clock time 01:00:00, and
  deleteOldBackups reads it as 2024-01-01T01:00:00Z: one hour after the time of the
  transfer.
\<close>

theorem createS3Path_local_time_read_as_utc:
  "createS3Path
     \<lparr> bucket = ''b'', prefix = None, endpointUrl = None, region = None,
       accessKeyId = ''id'', secretAccessKey = ''secret'' \<rparr>
     (fixedOffsetRuntime 60) 1704067200000 ''db'' None = ''db_20240101_010000.dump'' \<and>
   backupDateOfItem (fixedOffsetRuntime 60) ''db'' \<lparr> Key = Some ''db_20240101_010000.dump'' \<rparr>
     = Inr (Some (''db_20240101_010000.dump'', TimeValue (1704067200000 + 3600000)))"
  by code_simp

section \<open>Claims about createS3Path\<close>

lemma hasDoubleSlash_append:
  "hasDoubleSlash (a @ b) \<longleftrightarrow>
     hasDoubleSlash a \<or> hasDoubleSlash b \<or>
     (a \<noteq> [] \<and> b \<noteq> [] \<and> last a = CHR ''/'' \<and> hd b = CHR ''/'')"
proof (induction a rule: hasDoubleSlash.induct)
  case (1 x y r)
  then show ?case by auto
next
  case (2 x)
  show ?case by (cases b) auto
next
  case 3
  show ?case by simp
qed

lemma no_slash_no_double: "CHR ''/'' \<notin> set s \<Longrightarrow> \<not> hasDoubleSlash s"
  by (induction s rule: hasDoubleSlash.induct) auto

lemma addLeadingZeros_no_slash: "CHR ''/'' \<notin> set (addLeadingZeros x k)"
  using digits_no_slash [OF showNat_digits, of "nat \<bar>x\<bar>"]
  by (auto simp: addLeadingZeros_def padStart_def)

lemma formatTimestamp_no_slash: "CHR ''/'' \<notin> set (formatTimestamp rt t)"
  by (simp add: formatTimestamp_def Let_def addLeadingZeros_no_slash)

lemma cleanSegment_sep:
  assumes "cleanSegment s" "s \<noteq> []"
  shows "\<not> hasDoubleSlash (s @ ''/'')" "hd (s @ ''/'') \<noteq> CHR ''/''"
  using assms by (auto simp: cleanSegment_def hasDoubleSlash_append split: list.splits)

text \<open>
  C7 (counterexample). With the global prefix \<open>p/\<close> the key has a doubled separator.
\<close>

theorem createS3Path_prefix_ending_with_slash:
  "createS3Path
     \<lparr> bucket = ''b'', prefix = Some ''p/'', endpointUrl = None, region = None,
       accessKeyId = ''id'', secretAccessKey = ''secret'' \<rparr>
     (fixedOffsetRuntime 0) 1704067200000 ''db'' (Some ''f'') = ''p//f/db_20240101_000000.dump''"
  by code_simp

text \<open>
  C7 (amended). createS3Path puts exactly one \<open>/\<close> after each segment that is present and
  nothing for an absent one, whatever the segments are. With a prefix \<open>p\<close> and a folder
  \<open>f\<close> the key is \<open>p/f/<name>_<ts>.dump\<close> (for the name \<open>db\<close>: \<open>p/f/db_<ts>.dump\<close>); with
  the prefix only it is \<open>p/<name>_<ts>.dump\<close>; with the folder only it is
  \<open>f/<name>_<ts>.dump\<close>; without prefix and folder it is \<open><name>_<ts>.dump\<close>. A segment
  is absent when it is undefined or empty. The key has no doubled \<open>/\<close> when the prefix,
  the folder and the name have none and neither begin nor end with \<open>/\<close>.
\<close>

theorem createS3Path_separators:
  "(\<forall>p f. prefix config = Some p \<and> p \<noteq> [] \<and> folder' = Some f \<and> f \<noteq> [] \<longrightarrow>
      createS3Path config rt now dbName folder'
        = p @ ''/'' @ f @ ''/'' @ dbName @ ''_'' @ formatTimestamp rt now @ ''.dump'') \<and>
   (\<forall>p. prefix config = Some p \<and> p \<noteq> [] \<and> \<not> truthy folder' \<longrightarrow>
      createS3Path config rt now dbName folder'
        = p @ ''/'' @ dbName @ ''_'' @ formatTimestamp rt now @ ''.dump'') \<and>
   (\<forall>f. \<not> truthy (prefix config) \<and> folder' = Some f \<and> f \<noteq> [] \<longrightarrow>
      createS3Path config rt now dbName folder'
        = f @ ''/'' @ dbName @ ''_'' @ formatTimestamp rt now @ ''.dump'') \<and>
   (\<not> truthy (prefix config) \<and> \<not> truthy folder' \<longrightarrow>
      createS3Path config rt now dbName folder'
        = dbName @ ''_'' @ formatTimestamp rt now @ ''.dump'') \<and>
   ((\<forall>p. prefix config = Some p \<longrightarrow> cleanSegment p) \<and>
    (\<forall>f. folder' = Some f \<longrightarrow> cleanSegment f) \<and> cleanSegment dbName \<longrightarrow>
      \<not> hasDoubleSlash (createS3Path config rt now dbName folder'))"
proof (intro conjI allI impI)
  fix p f
  assume "prefix config = Some p \<and> p \<noteq> [] \<and> folder' = Some f \<and> f \<noteq> []"
  then show "createS3Path config rt now dbName folder'
        = p @ ''/'' @ f @ ''/'' @ dbName @ ''_'' @ formatTimestamp rt now @ ''.dump''"
    by (simp add: createS3Path_def)
next
  fix p
  assume "prefix config = Some p \<and> p \<noteq> [] \<and> \<not> truthy folder'"
  then show "createS3Path config rt now dbName folder'
        = p @ ''/'' @ dbName @ ''_'' @ formatTimestamp rt now @ ''.dump''"
    by (cases folder') (simp_all add: createS3Path_def)
next
  fix f
  assume "\<not> truthy (prefix config) \<and> folder' = Some f \<and> f \<noteq> []"
  then show "createS3Path config rt now dbName folder'
        = f @ ''/'' @ dbName @ ''_'' @ formatTimestamp rt now @ ''.dump''"
    by (cases "prefix config") (simp_all add: createS3Path_def)
next
  assume "\<not> truthy (prefix config) \<and> \<not> truthy folder'"
  then show "createS3Path config rt now dbName folder'
        = dbName @ ''_'' @ formatTimestamp rt now @ ''.dump''"
    by (cases "prefix config"; cases folder') (simp_all add: createS3Path_def)
next
  assume h: "(\<forall>p. prefix config = Some p \<longrightarrow> cleanSegment p) \<and>
    (\<forall>f. folder' = Some f \<longrightarrow> cleanSegment f) \<and> cleanSegment dbName"
  define a where "a = (case prefix config of None \<Rightarrow> [] | Some p \<Rightarrow> if p \<noteq> [] then p @ ''/'' else [])"
  define b where "b = (case folder' of None \<Rightarrow> [] | Some f \<Rightarrow> if f \<noteq> [] then f @ ''/'' else [])"
  define c where "c = ''_'' @ formatTimestamp rt now @ ''.dump''"
  have e: "createS3Path config rt now dbName folder' = a @ b @ dbName @ c"
    by (simp add: createS3Path_def a_def b_def c_def Let_def split: option.splits)
  have a: "\<not> hasDoubleSlash a" "a \<noteq> [] \<longrightarrow> hd a \<noteq> CHR ''/''"
    using h cleanSegment_sep by (auto simp: a_def split: option.splits)
  have b: "\<not> hasDoubleSlash b" "b \<noteq> [] \<longrightarrow> hd b \<noteq> CHR ''/''"
    using h cleanSegment_sep by (auto simp: b_def split: option.splits)
  have n: "\<not> hasDoubleSlash dbName" "dbName \<noteq> [] \<longrightarrow> hd dbName \<noteq> CHR ''/''"
    using h by (auto simp: cleanSegment_def split: list.splits)
  have c: "\<not> hasDoubleSlash c" "hd c \<noteq> CHR ''/''" "c \<noteq> []"
    using formatTimestamp_no_slash [of rt now] no_slash_no_double [of c]
    by (simp_all add: c_def)
  have 1: "\<not> hasDoubleSlash (dbName @ c)" "hd (dbName @ c) \<noteq> CHR ''/''" "dbName @ c \<noteq> []"
    using n c by (auto simp: hasDoubleSlash_append hd_append)
  have 2: "\<not> hasDoubleSlash (b @ dbName @ c)" "hd (b @ dbName @ c) \<noteq> CHR ''/''"
    using b 1 by (auto simp: hasDoubleSlash_append [of b] hd_append)
  have "\<not> hasDoubleSlash (a @ b @ dbName @ c)"
    using a 2 by (auto simp: hasDoubleSlash_append [of a])
  then show "\<not> hasDoubleSlash (createS3Path config rt now dbName folder')"
    unfolding e .
qed

text \<open>
  Instances, in a process in UTC at 2024-01-01T00:00:00Z: the four combinations of a
  prefix \<open>p\<close> and a folder \<open>f\<close> for the name \<open>db\<close>, and no doubled separator in the first.
\<close>

theorem createS3Path_separators_witness:
  "createS3Path
     \<lparr> bucket = ''b'', prefix = Some ''p'', endpointUrl = None, region = None,
       accessKeyId = ''id'', secretAccessKey = ''secret'' \<rparr>
     (fixedOffsetRuntime 0) 1704067200000 ''db'' (Some ''f'') = ''p/f/db_20240101_000000.dump'' \<and>
   createS3Path
     \<lparr> bucket = ''b'', prefix = Some ''p'', endpointUrl = None, region = None,
       accessKeyId = ''id'', secretAccessKey = ''secret'' \<rparr>
     (fixedOffsetRuntime 0) 1704067200000 ''db'' None = ''p/db_20240101_000000.dump'' \<and>
   createS3Path
     \<lparr> bucket = ''b'', prefix = None, endpointUrl = None, region = None,
       accessKeyId = ''id'', secretAccessKey = ''secret'' \<rparr>
     (fixedOffsetRuntime 0) 1704067200000 ''db'' (Some ''f'') = ''f/db_20240101_000000.dump'' \<and>
   createS3Path
     \<lparr> bucket = ''b'', prefix = None, endpointUrl = None, region = None,
       accessKeyId = ''id'', secretAccessKey = ''secret'' \<rparr>
     (fixedOffsetRuntime 0) 1704067200000 ''db'' None = ''db_20240101_000000.dump'' \<and>
   \<not> hasDoubleSlash (createS3Path
     \<lparr> bucket = ''b'', prefix = Some ''p'', endpointUrl = None, region = None,
       accessKeyId = ''id'', secretAccessKey = ''secret'' \<rparr>
     (fixedOffsetRuntime 0) 1704067200000 ''db'' (Some ''f''))"
proof -
  let ?c1 = "\<lparr> bucket = ''b'', prefix = Some ''p'', endpointUrl = None, region = None,
       accessKeyId = ''id'', secretAccessKey = ''secret'' \<rparr>"
  let ?c2 = "\<lparr> bucket = ''b'', prefix = None, endpointUrl = None, region = None,
       accessKeyId = ''id'', secretAccessKey = ''secret'' \<rparr>"
  let ?rt = "fixedOffsetRuntime 0"
  let ?now = "1704067200000 :: int"
  have ts: "formatTimestamp ?rt ?now = ''20240101_000000''" by code_simp
  have cl: "cleanSegment ''p''" "cleanSegment ''f''" "cleanSegment ''db''"
    by (simp_all add: cleanSegment_def)
  have 1: "createS3Path ?c1 ?rt ?now ''db'' (Some ''f'') = ''p/f/db_20240101_000000.dump''"
    using createS3Path_separators [of ?c1 "Some ''f''" ?rt ?now "''db''"] ts by simp
  have 2: "createS3Path ?c1 ?rt ?now ''db'' None = ''p/db_20240101_000000.dump''"
    using createS3Path_separators [of ?c1 None ?rt ?now "''db''"] ts by simp
  have 3: "createS3Path ?c2 ?rt ?now ''db'' (Some ''f'') = ''f/db_20240101_000000.dump''"
    using createS3Path_separators [of ?c2 "Some ''f''" ?rt ?now "''db''"] ts by simp
  have 4: "createS3Path ?c2 ?rt ?now ''db'' None = ''db_20240101_000000.dump''"
    using createS3Path_separators [of ?c2 None ?rt ?now "''db''"] ts by simp
  have pre: "(\<forall>p. prefix ?c1 = Some p \<longrightarrow> cleanSegment p) \<and>
      (\<forall>f. Some ''f'' = Some f \<longrightarrow> cleanSegment f) \<and> cleanSegment ''db''"
    using cl by simp
  have 5: "\<not> hasDoubleSlash (createS3Path ?c1 ?rt ?now ''db'' (Some ''f''))"
    by (rule mp [OF conjunct2 [OF conjunct2 [OF conjunct2 [OF conjunct2
          [OF createS3Path_separators [of ?c1 "Some ''f''" ?rt ?now "''db''"]]]]] pre])
  from 1 2 3 4 5 show ?thesis by blast
qed

section \<open>Claims about the orchestrator\<close>

lemma runLoop_results:
  assumes "\<forall>j < length cs. processDatabase s3 rt cv (worlds (i + j)) (cs ! j) \<noteq> None"
  shows "\<exists>rs. runLoop s3 rt cv worlds i cs results = Some (results @ rs) \<and>
           length rs = length cs \<and>
           (\<forall>j < length cs. processDatabase s3 rt cv (worlds (i + j)) (cs ! j) = Some (rs ! j))"
  using assms
proof (induction cs arbitrary: i results)
  case Nil
  show ?case by simp
next
  case (Cons c cs)
  from Cons.prems have "processDatabase s3 rt cv (worlds (i + 0)) ((c # cs) ! 0) \<noteq> None"
    by blast
  then obtain r where r: "processDatabase s3 rt cv (worlds i) c = Some r" by auto
  have "\<forall>j < length cs. processDatabase s3 rt cv (worlds (Suc i + j)) (cs ! j) \<noteq> None"
  proof (intro allI impI)
    fix j assume "j < length cs"
    then have "Suc j < length (c # cs)" by simp
    with Cons.prems have "processDatabase s3 rt cv (worlds (i + Suc j)) ((c # cs) ! Suc j) \<noteq> None"
      by blast
    then show "processDatabase s3 rt cv (worlds (Suc i + j)) (cs ! j) \<noteq> None" by simp
  qed
  from Cons.IH [OF this, of "results @ [r]"]
  obtain rs where rs: "runLoop s3 rt cv worlds (Suc i) cs (results @ [r]) = Some ((results @ [r]) @ rs)"
    "length rs = length cs"
    "\<forall>j < length cs. processDatabase s3 rt cv (worlds (Suc i + j)) (cs ! j) = Some (rs ! j)"
    by blast
  have a: "runLoop s3 rt cv worlds i (c # cs) results = Some (results @ (r # rs))"
    using r rs(1) by simp
  have b: "length (r # rs) = length (c # cs)" using rs(2) by simp
  have c: "\<forall>j < length (c # cs).
             processDatabase s3 rt cv (worlds (i + j)) ((c # cs) ! j) = Some ((r # rs) ! j)"
  proof (intro allI impI)
    fix j assume j: "j < length (c # cs)"
    show "processDatabase s3 rt cv (worlds (i + j)) ((c # cs) ! j) = Some ((r # rs) ! j)"
    proof (cases j)
      case 0
      with r show ?thesis by simp
    next
      case (Suc k)
      with j have "k < length cs" by simp
      with rs(3) have "processDatabase s3 rt cv (worlds (Suc i + k)) (cs ! k) = Some (rs ! k)"
        by blast
      with Suc show ?thesis by simp
    qed
  qed
  from a b c show ?case by blast
qed

lemma processDatabase_name:
  "processDatabase s3 rt cv world dbConfig = Some r \<Longrightarrow> res_database r = name dbConfig"
  by (auto simp: processDatabase_def split: option.splits sum.splits)

lemma processDatabase_failed:
  "backupDatabase s3 rt cv world dbConfig = Some (Inl e) \<Longrightarrow>
     processDatabase s3 rt cv world dbConfig =
       Some \<lparr> res_database = name dbConfig, success = False, path = None,
              error = Some e, deletedBackups = None \<rparr>"
  by (simp add: processDatabase_def)

text \<open>
  C3. When the startup checks pass and no retention listing runs forever, the run ends
  with one result per configuration, in the order of the list: the \<open>i\<close>-th result is the
  one of processing the \<open>i\<close>-th configuration in its turn, whatever happened before; it
  carries the name of the configuration; an exception thrown while the database is
  processed is recorded in it as a failure with that error; and the exit status is 0
  exactly when every result is a success (1 otherwise).
\<close>

theorem runBackups_isolates_failures:
  assumes "list_all (\<lambda>envVar. truthy (env w envVar))
             [''AWS_ACCESS_KEY_ID'', ''AWS_SECRET_ACCESS_KEY'', ''S3_BUCKET'']"
    and "clientVersionProbe w = Inr clientVersion"
    and "connectionsFile w = Inr connections"
    and "\<forall>i < length connections.
           processDatabase (s3ConfigOf w) (runtime w) clientVersion (dbWorlds w i)
             (connections ! i) \<noteq> None"
  shows "\<exists>code results.
           runBackups w = Some (code, results) \<and>
           length results = length connections \<and>
           (\<forall>i < length connections.
              processDatabase (s3ConfigOf w) (runtime w) clientVersion (dbWorlds w i)
                (connections ! i) = Some (results ! i) \<and>
              res_database (results ! i) = name (connections ! i) \<and>
              (\<forall>e. backupDatabase (s3ConfigOf w) (runtime w) clientVersion (dbWorlds w i)
                      (connections ! i) = Some (Inl e) \<longrightarrow>
                   results ! i = \<lparr> res_database = name (connections ! i), success = False,
                                   path = None, error = Some e, deletedBackups = None \<rparr>)) \<and>
           (code = 0 \<longleftrightarrow> (\<forall>r \<in> set results. success r)) \<and>
           (code = 0 \<or> code = 1)"
proof -
  have "\<forall>j < length connections.
          processDatabase (s3ConfigOf w) (runtime w) clientVersion (dbWorlds w (0 + j))
            (connections ! j) \<noteq> None"
    using assms(4) by simp
  from runLoop_results [OF this, of "[]"]
  obtain rs where rs:
    "runLoop (s3ConfigOf w) (runtime w) clientVersion (dbWorlds w) 0 connections [] = Some rs"
    "length rs = length connections"
    "\<forall>j < length connections.
       processDatabase (s3ConfigOf w) (runtime w) clientVersion (dbWorlds w j)
         (connections ! j) = Some (rs ! j)"
    by auto
  define code :: nat where "code = (if list_all success rs then 0 else 1)"
  have run: "runBackups w = Some (code, rs)"
    using assms(1,2,3) rs(1) by (simp add: runBackups_def code_def)
  have each: "\<forall>i < length connections.
      processDatabase (s3ConfigOf w) (runtime w) clientVersion (dbWorlds w i)
        (connections ! i) = Some (rs ! i) \<and>
      res_database (rs ! i) = name (connections ! i) \<and>
      (\<forall>e. backupDatabase (s3ConfigOf w) (runtime w) clientVersion (dbWorlds w i)
              (connections ! i) = Some (Inl e) \<longrightarrow>
           rs ! i = \<lparr> res_database = name (connections ! i), success = False,
                       path = None, error = Some e, deletedBackups = None \<rparr>)"
  proof (intro allI impI conjI)
    fix i assume i: "i < length connections"
    show p: "processDatabase (s3ConfigOf w) (runtime w) clientVersion (dbWorlds w i)
        (connections ! i) = Some (rs ! i)"
      using rs(3) i by blast
    show "res_database (rs ! i) = name (connections ! i)"
      using p by (rule processDatabase_name)
    fix e
    assume "backupDatabase (s3ConfigOf w) (runtime w) clientVersion (dbWorlds w i)
              (connections ! i) = Some (Inl e)"
    then show "rs ! i = \<lparr> res_database = name (connections ! i), success = False,
                       path = None, error = Some e, deletedBackups = None \<rparr>"
      using p processDatabase_failed by fastforce
  qed
  have c1: "code = 0 \<longleftrightarrow> (\<forall>r \<in> set rs. success r)"
    by (simp add: code_def list_all_iff)
  have c2: "code = 0 \<or> code = 1"
    by (simp add: code_def)
  show ?thesis
  proof (intro exI conjI)
    show "runBackups w = Some (code, rs)" by (rule run)
    show "length rs = length connections" by (rule rs(2))
    show "\<forall>i < length connections.
      processDatabase (s3ConfigOf w) (runtime w) clientVersion (dbWorlds w i)
        (connections ! i) = Some (rs ! i) \<and>
      res_database (rs ! i) = name (connections ! i) \<and>
      (\<forall>e. backupDatabase (s3ConfigOf w) (runtime w) clientVersion (dbWorlds w i)
              (connections ! i) = Some (Inl e) \<longrightarrow>
           rs ! i = \<lparr> res_database = name (connections ! i), success = False,
                       path = None, error = Some e, deletedBackups = None \<rparr>)"
      by (rule each)
    show "code = 0 \<longleftrightarrow> (\<forall>r \<in> set rs. success r)" by (rule c1)
    show "code = 0 \<or> code = 1" by (rule c2)
  qed
qed

lemma deleteOldBackups_emptyStorage:
  "deleteOldBackups config emptyStorage rt now dbName dir retentionDays = Some (Inr (0, []))"
  unfolding deleteOldBackups_def Let_def
  by (subst listLoop.simps) (simp add: emptyStorage_def)

lemma processDatabase_dumpWorld:
  "processDatabase exampleS3Config (fixedOffsetRuntime 0) 16 (dumpWorld code signal)
     \<lparr> name = ''b'', connection = ''postgres://u:p@h:5432/d'', folder = None,
       retention_days = 30 \<rparr>
   = Some \<lparr> res_database = ''b'', success = True, path = Some ''b_20240101_000000.dump'',
            error = None, deletedBackups = Some 0 \<rparr>"
proof -
  have p: "parseConnectionString ''postgres://u:p@h:5432/d''
             = Inr \<lparr> username = ''u'', password = Some ''p'', host = ''h'',
                     port = Number 5432, database = ''d'' \<rparr>"
    by code_simp
  have k: "createS3Path exampleS3Config (fixedOffsetRuntime 0) 1704067200000 ''b'' None = ''b_20240101_000000.dump''"
    by code_simp
  have u: "uploadStream exampleS3Config emptyStorage s ''b_20240101_000000.dump''
             = Inr ''b_20240101_000000.dump''" for s
    by (simp add: uploadStream_def emptyStorage_def)
  show ?thesis
    by (simp add: processDatabase_def backupDatabase_def dumpWorld_def p k u
        deleteOldBackups_emptyStorage)
qed

lemma processDatabase_no_at:
  "processDatabase s3 rt cv world
     \<lparr> name = ''a'', connection = ''postgres://nohost'', folder = None, retention_days = 30 \<rparr>
   = Some \<lparr> res_database = ''a'', success = False, path = None,
            error = Some TypeError, deletedBackups = None \<rparr>"
proof -
  have p: "parseConnectionString ''postgres://nohost'' = Inl TypeError"
    by code_simp
  show ?thesis
    by (simp add: processDatabase_def backupDatabase_def p)
qed

theorem runBackups_isolates_failures_witness:
  "runBackups exampleRun =
     Some (1, [\<lparr> res_database = ''a'', success = False, path = None,
                 error = Some TypeError, deletedBackups = None \<rparr>,
               \<lparr> res_database = ''b'', success = True,
                 path = Some ''b_20240101_000000.dump'',
                 error = None, deletedBackups = Some 0 \<rparr>])"
proof -
  let ?a = "\<lparr> name = ''a'', connection = ''postgres://nohost'', folder = None,
               retention_days = 30 \<rparr>"
  let ?b = "\<lparr> name = ''b'', connection = ''postgres://u:p@h:5432/d'', folder = None,
               retention_days = 30 \<rparr>"
  let ?ra = "\<lparr> res_database = ''a'', success = False, path = None,
                error = Some TypeError, deletedBackups = None \<rparr>"
  let ?rb = "\<lparr> res_database = ''b'', success = True, path = Some ''b_20240101_000000.dump'',
                error = None, deletedBackups = Some 0 \<rparr>"
  have s3: "s3ConfigOf exampleRun = exampleS3Config"
    by (simp add: s3ConfigOf_def envOrEmpty_def exampleRun_def exampleS3Config_def)
  have w: "dbWorlds exampleRun i = dumpWorld (Some 0) None" for i
    by (simp add: exampleRun_def)
  have rt: "runtime exampleRun = fixedOffsetRuntime 0" by (simp add: exampleRun_def)
  have h1: "list_all (\<lambda>envVar. truthy (env exampleRun envVar))
              [''AWS_ACCESS_KEY_ID'', ''AWS_SECRET_ACCESS_KEY'', ''S3_BUCKET'']"
    by (simp add: exampleRun_def)
  have h2: "clientVersionProbe exampleRun = Inr 16" by (simp add: exampleRun_def)
  have h3: "connectionsFile exampleRun = Inr [?a, ?b]" by (simp add: exampleRun_def)
  have pa: "processDatabase (s3ConfigOf exampleRun) (runtime exampleRun) 16
              (dbWorlds exampleRun 0) ?a = Some ?ra"
    by (rule processDatabase_no_at)
  have pb: "processDatabase (s3ConfigOf exampleRun) (runtime exampleRun) 16
              (dbWorlds exampleRun 1) ?b = Some ?rb"
    unfolding s3 w rt by (rule processDatabase_dumpWorld)
  have h4: "\<forall>i < length [?a, ?b].
              processDatabase (s3ConfigOf exampleRun) (runtime exampleRun) 16
                (dbWorlds exampleRun i) ([?a, ?b] ! i) \<noteq> None"
  proof (intro allI impI)
    fix i assume "i < length [?a, ?b]"
    then have "i = 0 \<or> i = 1" by auto
    then show "processDatabase (s3ConfigOf exampleRun) (runtime exampleRun) 16
                (dbWorlds exampleRun i) ([?a, ?b] ! i) \<noteq> None"
      using pa pb by auto
  qed
  from runBackups_isolates_failures [OF h1 h2 h3 h4]
  obtain code results where r:
    "runBackups exampleRun = Some (code, results)"
    "length results = length [?a, ?b]"
    "\<forall>i < length [?a, ?b].
       processDatabase (s3ConfigOf exampleRun) (runtime exampleRun) 16
         (dbWorlds exampleRun i) ([?a, ?b] ! i) = Some (results ! i) \<and>
       res_database (results ! i) = name ([?a, ?b] ! i) \<and>
       (\<forall>e. backupDatabase (s3ConfigOf exampleRun) (runtime exampleRun) 16
               (dbWorlds exampleRun i) ([?a, ?b] ! i) = Some (Inl e) \<longrightarrow>
            results ! i = \<lparr> res_database = name ([?a, ?b] ! i), success = False,
                            path = None, error = Some e, deletedBackups = None \<rparr>)"
    "code = 0 \<longleftrightarrow> (\<forall>r \<in> set results. success r)"
    "code = 0 \<or> code = 1"
    by (elim exE conjE) (rule that; assumption)
  have i0: "(0::nat) < length [?a, ?b]" and i1: "(1::nat) < length [?a, ?b]" by simp_all
  have "processDatabase (s3ConfigOf exampleRun) (runtime exampleRun) 16
          (dbWorlds exampleRun 0) ([?a, ?b] ! 0) = Some (results ! 0)"
    using r(3) i0 by blast
  then have r0: "results ! 0 = ?ra" using pa by simp
  have "processDatabase (s3ConfigOf exampleRun) (runtime exampleRun) 16
          (dbWorlds exampleRun 1) ([?a, ?b] ! 1) = Some (results ! 1)"
    using r(3) i1 by blast
  then have r1: "results ! 1 = ?rb" using pb by simp
  have res: "results = [?ra, ?rb]"
  proof (rule nth_equalityI)
    show "length results = length [?ra, ?rb]" using r(2) by simp
    fix i assume "i < length results"
    then have "i = 0 \<or> i = 1" using r(2) by auto
    then show "results ! i = [?ra, ?rb] ! i" using r0 r1 by auto
  qed
  have "code \<noteq> 0" using r(4) res by simp
  with r(5) have "code = 1" by simp
  with r(1) res show ?thesis by simp
qed

section \<open>Claim about the exit of the dump subprocess\<close>

text \<open>The exit code and signal of the subprocess reach no part of the result.\<close>

lemma backupDatabase_ignores_exit:
  "backupDatabase s3 rt cv
     (world \<lparr> pgDump := \<lambda>cd. (pgDump world cd) \<lparr> exitCode := code, exitSignal := signal \<rparr> \<rparr>)
     dbConfig
   = backupDatabase s3 rt cv world dbConfig"
  by (simp add: backupDatabase_def createDumpStream_def Let_def
      cong: sum.case_cong option.case_cong)

text \<open>
  C2 (the code at the failing input). The dump subprocess writes three bytes and then
  exits with code 1, or is killed by a signal; the upload of the bytes succeeds. The
  result of the database is a success, with the key of the truncated dump as its path.
\<close>

theorem processDatabase_succeeds_after_failed_dump:
  "processDatabase exampleS3Config (fixedOffsetRuntime 0) 16 (dumpWorld (Some 1) None)
     \<lparr> name = ''b'', connection = ''postgres://u:p@h:5432/d'', folder = None,
       retention_days = 30 \<rparr>
   = Some \<lparr> res_database = ''b'', success = True, path = Some ''b_20240101_000000.dump'',
            error = None, deletedBackups = Some 0 \<rparr> \<and>
   processDatabase exampleS3Config (fixedOffsetRuntime 0) 16 (dumpWorld None (Some ''SIGKILL''))
     \<lparr> name = ''b'', connection = ''postgres://u:p@h:5432/d'', folder = None,
       retention_days = 30 \<rparr>
   = Some \<lparr> res_database = ''b'', success = True, path = Some ''b_20240101_000000.dump'',
            error = None, deletedBackups = Some 0 \<rparr> \<and>
   snd (createDumpStream (pgDump (dumpWorld (Some 1) None))
          \<lparr> username = ''u'', password = Some ''p'', host = ''h'', port = Number 5432,
            database = ''d'' \<rparr>) = [LogError]"
proof (intro conjI)
  show "processDatabase exampleS3Config (fixedOffsetRuntime 0) 16 (dumpWorld (Some 1) None)
     \<lparr> name = ''b'', connection = ''postgres://u:p@h:5432/d'', folder = None,
       retention_days = 30 \<rparr>
   = Some \<lparr> res_database = ''b'', success = True, path = Some ''b_20240101_000000.dump'',
            error = None, deletedBackups = Some 0 \<rparr>"
    by (rule processDatabase_dumpWorld)
  show "processDatabase exampleS3Config (fixedOffsetRuntime 0) 16 (dumpWorld None (Some ''SIGKILL''))
     \<lparr> name = ''b'', connection = ''postgres://u:p@h:5432/d'', folder = None,
       retention_days = 30 \<rparr>
   = Some \<lparr> res_database = ''b'', success = True, path = Some ''b_20240101_000000.dump'',
            error = None, deletedBackups = Some 0 \<rparr>"
    by (rule processDatabase_dumpWorld)
  show "snd (createDumpStream (pgDump (dumpWorld (Some 1) None))
          \<lparr> username = ''u'', password = Some ''p'', host = ''h'', port = Number 5432,
            database = ''d'' \<rparr>) = [LogError]"
    by (simp add: createDumpStream_def dumpWorld_def onExit_def)
qed

end
